theory Spec2Isabelle
  imports Complex_Main
begin

section \<open>Numbers: C++ doubles with their special values\<close>

text \<open>
  The solver works on C++ \<^verbatim>\<open>double\<close>. A finite double is a real number (no signed
  zero); the special values \<^verbatim>\<open>+inf\<close> (\<^verbatim>\<open>kHighsInf\<close>), \<^verbatim>\<open>-inf\<close> and \<^verbatim>\<open>NaN\<close> are
  kept, with the IEEE rules for comparison and arithmetic, because the code tests
  against \<^verbatim>\<open>kHighsInf\<close> and starts from infinite bounds. The operations of this
  section give the exact result on finite values. The cutoff arithmetic, whose
  result depends on the rounding of each operation, rounds every result (section
  \<open>Cutoff arithmetic\<close>); elsewhere the exact result stands for the rounded one.
\<close>

datatype double = NaN | MInf | Fin real | PInf

text \<open>
  Modelled from the spec: \<^verbatim>\<open>kHighsInf\<close> is declared outside this file; the spec speaks
  of it as \<open>+infinity\<close>, the value of a bound or objective that does not exist yet.
\<close>

definition kHighsInf :: double where
  "kHighsInf = PInf"

text \<open>\<^verbatim>\<open>a < b\<close>, \<^verbatim>\<open>a <= b\<close>, \<^verbatim>\<open>a == b\<close>: every comparison with NaN is false.\<close>

fun d_lt :: "double \<Rightarrow> double \<Rightarrow> bool" where
  "d_lt (Fin x) (Fin y) = (x < y)"
| "d_lt MInf (Fin y) = True"
| "d_lt MInf PInf = True"
| "d_lt (Fin x) PInf = True"
| "d_lt _ _ = False"

fun d_le :: "double \<Rightarrow> double \<Rightarrow> bool" where
  "d_le (Fin x) (Fin y) = (x \<le> y)"
| "d_le MInf MInf = True"
| "d_le MInf (Fin y) = True"
| "d_le MInf PInf = True"
| "d_le (Fin x) PInf = True"
| "d_le PInf PInf = True"
| "d_le _ _ = False"

definition d_eq :: "double \<Rightarrow> double \<Rightarrow> bool" where
  "d_eq a b = (a \<noteq> NaN \<and> a = b)"

fun d_neg :: "double \<Rightarrow> double" where
  "d_neg NaN = NaN"
| "d_neg MInf = PInf"
| "d_neg (Fin x) = Fin (- x)"
| "d_neg PInf = MInf"

fun d_add :: "double \<Rightarrow> double \<Rightarrow> double" where
  "d_add (Fin x) (Fin y) = Fin (x + y)"
| "d_add NaN _ = NaN"
| "d_add _ NaN = NaN"
| "d_add PInf MInf = NaN"
| "d_add MInf PInf = NaN"
| "d_add PInf _ = PInf"
| "d_add _ PInf = PInf"
| "d_add MInf _ = MInf"
| "d_add _ MInf = MInf"

definition d_sub :: "double \<Rightarrow> double \<Rightarrow> double" where
  "d_sub a b = d_add a (d_neg b)"

text \<open>The sign of an infinite product or quotient; \<^verbatim>\<open>inf * 0\<close> is NaN.\<close>

definition inf_signed :: "bool \<Rightarrow> double" where
  "inf_signed positive = (if positive then PInf else MInf)"

fun d_mul :: "double \<Rightarrow> double \<Rightarrow> double" where
  "d_mul (Fin x) (Fin y) = Fin (x * y)"
| "d_mul NaN _ = NaN"
| "d_mul _ NaN = NaN"
| "d_mul PInf (Fin y) = (if y = 0 then NaN else inf_signed (0 < y))"
| "d_mul MInf (Fin y) = (if y = 0 then NaN else inf_signed (y < 0))"
| "d_mul (Fin x) PInf = (if x = 0 then NaN else inf_signed (0 < x))"
| "d_mul (Fin x) MInf = (if x = 0 then NaN else inf_signed (x < 0))"
| "d_mul PInf PInf = PInf"
| "d_mul MInf MInf = PInf"
| "d_mul PInf MInf = MInf"
| "d_mul MInf PInf = MInf"

text \<open>Division; a finite nonzero value over zero is an infinity (the zero taken as \<^verbatim>\<open>+0\<close>).\<close>

fun d_div :: "double \<Rightarrow> double \<Rightarrow> double" where
  "d_div (Fin x) (Fin y) =
     (if y = 0 then (if x = 0 then NaN else inf_signed (0 < x)) else Fin (x / y))"
| "d_div NaN _ = NaN"
| "d_div _ NaN = NaN"
| "d_div (Fin x) PInf = Fin 0"
| "d_div (Fin x) MInf = Fin 0"
| "d_div PInf (Fin y) = inf_signed (0 \<le> y)"
| "d_div MInf (Fin y) = inf_signed (y < 0)"
| "d_div PInf PInf = NaN"
| "d_div PInf MInf = NaN"
| "d_div MInf PInf = NaN"
| "d_div MInf MInf = NaN"

fun d_abs :: "double \<Rightarrow> double" where
  "d_abs NaN = NaN"
| "d_abs MInf = PInf"
| "d_abs (Fin x) = Fin \<bar>x\<bar>"
| "d_abs PInf = PInf"

fun d_floor :: "double \<Rightarrow> double" where
  "d_floor (Fin x) = Fin (of_int \<lfloor>x\<rfloor>)"
| "d_floor a = a"

fun d_ceil :: "double \<Rightarrow> double" where
  "d_ceil (Fin x) = Fin (of_int \<lceil>x\<rceil>)"
| "d_ceil a = a"

text \<open>\<^verbatim>\<open>std::min(a, b)\<close> is \<^verbatim>\<open>(b < a) ? b : a\<close> and \<^verbatim>\<open>std::max(a, b)\<close> is
  \<^verbatim>\<open>(a < b) ? b : a\<close>.\<close>

definition d_min :: "double \<Rightarrow> double \<Rightarrow> double" where
  "d_min a b = (if d_lt b a then b else a)"

definition d_max :: "double \<Rightarrow> double \<Rightarrow> double" where
  "d_max a b = (if d_lt a b then b else a)"

section \<open>Data model\<close>

datatype HighsVarType =
  kContinuous | kInteger | kSemiContinuous | kSemiInteger | kImplicitInteger

datatype ObjSense = kMinimize | kMaximize

text \<open>
  Modelled from the spec: the enumerators of \<^verbatim>\<open>ObjSense\<close> are declared outside this
  file. \<^verbatim>\<open>(int)sense_\<close> is used as a sign (the objective target is reached from below
  when minimising and from above when maximising, and a maximisation objective is
  negated), so \<^verbatim>\<open>kMinimize\<close> is 1 and \<^verbatim>\<open>kMaximize\<close> is -1.
\<close>

fun int_sense :: "ObjSense \<Rightarrow> real" where
  "int_sense kMinimize = 1"
| "int_sense kMaximize = - 1"

datatype HighsModelStatus =
  kNotset | kModelEmpty | kOptimal | kInfeasible | kUnboundedOrInfeasible | kUnbounded
  | kObjectiveBound | kObjectiveTarget | kTimeLimit | kIterationLimit | kUnknown
  | kSolutionLimit | kInterrupt

text \<open>\<^verbatim>\<open>HighsLpRelaxation::Status\<close>. Both enumerations are declared outside this file;
  the operations below name the values they use.\<close>

datatype LpStatus =
  LpNotSet | LpOptimal | LpInfeasible | LpUnscaledDualFeasible | LpUnscaledPrimalFeasible
  | LpUnscaledInfeasible | LpUnbounded | LpError

datatype error = OutOfBounds | LogicError

text \<open>
  Modelled from the spec: \<^verbatim>\<open>kHighsIInf\<close> is declared outside this file; it is the
  value of a count limit that is not set, the largest 32-bit \<^verbatim>\<open>HighsInt\<close>.
\<close>

definition kHighsIInf :: int where
  "kHighsIInf = 2147483647"

text \<open>
  A model (\<^verbatim>\<open>HighsLp\<close>): \<^verbatim>\<open>model_\<close> is the presolved model the solver works on,
  \<^verbatim>\<open>orig_model_\<close> the model as the user gave it. Costs are finite; bounds may be infinite.
  Field names are the source's member names without their trailing underscore.
  Dimensions and stored indices are counts, so they are natural numbers. The accessors
  \<^verbatim>\<open>mipsolver.numCol()\<close>, \<^verbatim>\<open>variableType(i)\<close>, \<^verbatim>\<open>colCost(i)\<close>, \<^verbatim>\<open>rowLower(i)\<close>
  and \<^verbatim>\<open>rowUpper(i)\<close> read the fields of \<^verbatim>\<open>model_\<close>.
\<close>

record HighsLp =
  num_col :: nat
  num_row :: nat
  col_cost :: "real list"
  col_lower :: "double list"
  col_upper :: "double list"
  row_lower :: "double list"
  row_upper :: "double list"
  integrality :: "HighsVarType list"
  offset :: real
  sense :: ObjSense

record HighsOptions =
  mip_feasibility_tolerance :: real
  primal_feasibility_tolerance :: real
  mip_abs_gap :: double
  mip_rel_gap :: double
  objective_target :: double
  objective_bound :: double
  time_limit :: double
  mip_max_nodes :: int
  mip_max_leaves :: int
  mip_max_improving_sols :: int

text \<open>
  What a call reads and does not write: the two models, the options, the tolerances
  copied from them at \<^verbatim>\<open>init()\<close>, the objective's integrality
  (\<^verbatim>\<open>objectiveFunction.isIntegral()\<close>, \<^verbatim>\<open>integralScale()\<close>), the row-wise matrix
  of \<^verbatim>\<open>model_\<close>, the callback registration, and the two operations of the machine's
  arithmetic that have no counterpart on the reals: \<open>round_double\<close>, the double that
  an operation delivers when its exact result is the given real (the nearest double, an
  infinity on overflow), and \<^verbatim>\<open>std::nextafter(x, -inf)\<close>, the next double below
  \<open>x\<close>. What is known of them is stated where it is used. The collaborators that are
  functions of their argument are parameters too: primal postsolve
  (\<^verbatim>\<open>postSolveStack.undoPrimal\<close>), the row activities of the original model
  (\<^verbatim>\<open>calculateRowValuesQuad\<close>), and the LP solver run on the repair model
  (\<^verbatim>\<open>tmpSolver.run()\<close>: whether the primal solution status is feasible, and the
  column and row values of its solution).
\<close>

record mip_env =
  model :: HighsLp
  orig_model :: HighsLp
  options_mip :: HighsOptions
  submip :: bool
  feastol :: real
  epsilon :: real
  isIntegral :: bool
  integralScale :: real
  round_double :: "real \<Rightarrow> double"
  nextafter_down :: "double \<Rightarrow> double"
  ARstart :: "nat list"
  ARindex :: "nat list"
  ARvalue :: "real list"
  user_callback :: bool
  active_kCallbackMipSolution :: bool
  has_globalOrbits :: bool
  undoPrimal :: "real list \<Rightarrow> real list"
  calculateRowValuesQuad :: "real list \<Rightarrow> real list"
  tmpSolver_run :: "HighsLp \<Rightarrow> bool \<times> real list \<times> real list"

text \<open>
  The solve state: the fields of \<^verbatim>\<open>HighsMipSolverData\<close> and of \<^verbatim>\<open>HighsMipSolver\<close>
  (\<^verbatim>\<open>modelstatus_\<close>, \<^verbatim>\<open>solution_\<close> as \<open>mipsolver_solution\<close>,
  \<^verbatim>\<open>solution_objective_\<close> and the three violations) that the operations below write.
\<close>

record mip_state =
  lower_bound :: double
  upper_bound :: double
  upper_limit :: double
  optimality_limit :: double
  incumbent :: "real list"
  pruned_treeweight :: real
  num_nodes :: int
  num_leaves :: int
  numImprovingSols :: int
  total_lp_iterations :: int
  numRestarts :: int
  num_nodes_before_run :: int
  num_leaves_before_run :: int
  total_lp_iterations_before_run :: int
  modelstatus :: HighsModelStatus
  mipsolver_solution :: "real list"
  solution_objective :: double
  bound_violation :: double
  integrality_violation :: double
  row_violation :: double

section \<open>Cutoff arithmetic\<close>

text \<open>
  An arithmetic operation on doubles delivers its exact result rounded; an infinity or
  NaN stays as it is. \<^verbatim>\<open>std::floor\<close>, \<^verbatim>\<open>std::ceil\<close>, \<^verbatim>\<open>fabs\<close> and \<^verbatim>\<open>std::min\<close>
  are exact.
\<close>

definition fl_round :: "mip_env \<Rightarrow> double \<Rightarrow> double" where
  "fl_round env v = (case v of Fin x \<Rightarrow> round_double env x | _ \<Rightarrow> v)"

definition fl_add :: "mip_env \<Rightarrow> double \<Rightarrow> double \<Rightarrow> double" where
  "fl_add env a b = fl_round env (d_add a b)"

definition fl_sub :: "mip_env \<Rightarrow> double \<Rightarrow> double \<Rightarrow> double" where
  "fl_sub env a b = fl_round env (d_sub a b)"

definition fl_mul :: "mip_env \<Rightarrow> double \<Rightarrow> double \<Rightarrow> double" where
  "fl_mul env a b = fl_round env (d_mul a b)"

definition fl_div :: "mip_env \<Rightarrow> double \<Rightarrow> double \<Rightarrow> double" where
  "fl_div env a b = fl_round env (d_div a b)"

text \<open>\<^verbatim>\<open>computeNewUpperLimit(ub, mip_abs_gap, mip_rel_gap)\<close>.\<close>

definition computeNewUpperLimit :: "mip_env \<Rightarrow> double \<Rightarrow> double \<Rightarrow> double \<Rightarrow> double" where
  "computeNewUpperLimit env ub abs_gap rel_gap =
    (let scale = Fin (integralScale env) in
     if isIntegral env then
       (let l0 = fl_div env (d_floor (fl_sub env (fl_mul env scale ub) (Fin (1/2)))) scale;
            l1 = (if \<not> d_eq rel_gap (Fin 0)
                  then d_min l0
                         (fl_sub env ub
                            (fl_div env
                               (d_ceil
                                  (fl_sub env
                                     (fl_mul env
                                        (fl_mul env rel_gap
                                           (d_abs (fl_add env ub (Fin (offset (model env))))))
                                        scale)
                                     (Fin (epsilon env))))
                               scale))
                  else l0);
            l2 = (if \<not> d_eq abs_gap (Fin 0)
                  then d_min l1
                         (fl_sub env ub
                            (fl_div env
                               (d_ceil (fl_sub env (fl_mul env abs_gap scale) (Fin (epsilon env))))
                               scale))
                  else l1)
        in fl_add env l2 (Fin (feastol env)))
     else
       (let l0 = d_min (fl_sub env ub (Fin (feastol env))) (nextafter_down env ub);
            l1 = (if \<not> d_eq rel_gap (Fin 0)
                  then d_min l0
                         (fl_sub env ub
                            (fl_mul env rel_gap
                               (d_abs (fl_add env ub (Fin (offset (model env)))))))
                  else l0);
            l2 = (if \<not> d_eq abs_gap (Fin 0) then d_min l1 (fl_sub env ub abs_gap) else l1)
        in l2))"

section \<open>Reading vectors\<close>

text \<open>
  \<^verbatim>\<open>v[i]\<close> on a \<^verbatim>\<open>std::vector\<close> does not check its index; reading past the end is
  undefined behaviour. The model makes it the error \<open>OutOfBounds\<close>, which every caller
  passes on.
\<close>

definition rd :: "'a list \<Rightarrow> nat \<Rightarrow> error + 'a" where
  "rd xs i = (if i < length xs then Inr (xs ! i) else Inl OutOfBounds)"

definition ebind :: "error + 'a \<Rightarrow> ('a \<Rightarrow> error + 'b) \<Rightarrow> error + 'b" where
  "ebind m f = (case m of Inl e \<Rightarrow> Inl e | Inr v \<Rightarrow> f v)"

section \<open>Feasibility of a candidate in the presolved model\<close>

text \<open>
  The loop of \<^verbatim>\<open>solutionColFeasible\<close> over the columns \<open>is\<close> still to visit, with the
  objective accumulated so far. \<open>Inr None\<close> is \<^verbatim>\<open>return false\<close> (the output parameter
  \<^verbatim>\<open>obj\<close> is not written), \<open>Inr (Some obj)\<close> is \<^verbatim>\<open>return true\<close>.
\<close>

fun colFeasible_loop :: "mip_env \<Rightarrow> real list \<Rightarrow> nat list \<Rightarrow> real \<Rightarrow> error + real option" where
  "colFeasible_loop env sol [] cdouble_obj = Inr (Some cdouble_obj)"
| "colFeasible_loop env sol (i # is) cdouble_obj =
     ebind (rd sol i) (\<lambda>x.
     ebind (rd (col_lower (model env)) i) (\<lambda>lo.
       if d_lt (Fin x) (d_sub lo (Fin (feastol env))) then Inr None
       else
     ebind (rd (col_upper (model env)) i) (\<lambda>up.
       if d_lt (d_add up (Fin (feastol env))) (Fin x) then Inr None
       else
     ebind (rd (integrality (model env)) i) (\<lambda>ty.
       if ty = kInteger \<and> feastol env < \<bar>x - of_int \<lfloor>x + 1/2\<rfloor>\<bar> then Inr None
       else
     ebind (rd (col_cost (model env)) i) (\<lambda>c.
       colFeasible_loop env sol is (cdouble_obj + c * x))))))"

definition solutionColFeasible :: "mip_env \<Rightarrow> real list \<Rightarrow> error + real option" where
  "solutionColFeasible env sol =
    (if length sol \<noteq> num_col (model env) then Inr None
     else colFeasible_loop env sol [0..<num_col (model env)] 0)"

text \<open>The inner loop of \<^verbatim>\<open>solutionRowFeasible\<close>: the activity of one row.\<close>

fun rowactivity_loop :: "mip_env \<Rightarrow> real list \<Rightarrow> nat list \<Rightarrow> real \<Rightarrow> error + real" where
  "rowactivity_loop env sol [] rowactivity = Inr rowactivity"
| "rowactivity_loop env sol (j # js) rowactivity =
     ebind (rd (ARindex env) j) (\<lambda>col.
     ebind (rd sol col) (\<lambda>x.
     ebind (rd (ARvalue env) j) (\<lambda>a.
       rowactivity_loop env sol js (rowactivity + x * a))))"

text \<open>
  \<^verbatim>\<open>for (j = start; j != end; ++j)\<close>: with \<open>end < start\<close> the index never meets
  \<open>end\<close> and runs past the vectors.
\<close>

fun rowFeasible_loop :: "mip_env \<Rightarrow> real list \<Rightarrow> nat list \<Rightarrow> error + bool" where
  "rowFeasible_loop env sol [] = Inr True"
| "rowFeasible_loop env sol (i # is) =
     ebind (rd (ARstart env) i) (\<lambda>start.
     ebind (rd (ARstart env) (i + 1)) (\<lambda>end.
     ebind (if end < start then Inl OutOfBounds
            else rowactivity_loop env sol [start..<end] 0) (\<lambda>rowactivity.
     ebind (rd (row_upper (model env)) i) (\<lambda>up.
       if d_lt (d_add up (Fin (feastol env))) (Fin rowactivity) then Inr False
       else
     ebind (rd (row_lower (model env)) i) (\<lambda>lo.
       if d_lt (Fin rowactivity) (d_sub lo (Fin (feastol env))) then Inr False
       else rowFeasible_loop env sol is)))))"

definition solutionRowFeasible :: "mip_env \<Rightarrow> real list \<Rightarrow> error + bool" where
  "solutionRowFeasible env sol = rowFeasible_loop env sol [0..<num_row (model env)]"

definition checkSolution :: "mip_env \<Rightarrow> real list \<Rightarrow> error + bool" where
  "checkSolution env sol =
     ebind (solutionColFeasible env sol) (\<lambda>r.
       case r of None \<Rightarrow> Inr False | Some obj \<Rightarrow> solutionRowFeasible env sol)"

section \<open>Transforming a candidate to the original space\<close>

text \<open>A \<^verbatim>\<open>HighsSolution\<close>: column and row values.\<close>

record HighsSolution =
  col_value :: "real list"
  row_value :: "real list"

text \<open>
  One pass of the violation check of \<^verbatim>\<open>transformNewIntegerFeasibleSolution\<close> (the code
  between the label \<^verbatim>\<open>try_again\<close> and the computation of \<^verbatim>\<open>feasible\<close>). The column
  loop carries the objective (started at the original model's offset), the integrality
  violation and the bound violation; the row loop carries the row violation. The
  indices \<^verbatim>\<open>check_col\<close>, \<^verbatim>\<open>check_int\<close>, \<^verbatim>\<open>check_row\<close> only feed the log line and
  are left out.
\<close>

fun viol_col_loop ::
  "HighsLp \<Rightarrow> real \<Rightarrow> real list \<Rightarrow> nat list \<Rightarrow> real \<times> double \<times> double
     \<Rightarrow> error + real \<times> double \<times> double" where
  "viol_col_loop om tol cv [] acc = Inr acc"
| "viol_col_loop om tol cv (i # is) (obj, integrality_viol, bound_viol) =
     ebind (rd cv i) (\<lambda>v.
     ebind (rd (col_cost om) i) (\<lambda>c.
     ebind (rd (integrality om) i) (\<lambda>ty.
     ebind (rd (col_lower om) i) (\<lambda>lower.
     ebind (rd (col_upper om) i) (\<lambda>upper.
       (let obj' = obj + c * v;
            integrality_viol' =
              (if ty = kInteger
               then d_max (Fin \<bar>of_int \<lfloor>v + 1/2\<rfloor> - v\<bar>) integrality_viol
               else integrality_viol);
            bound_viol' =
              (if d_lt (Fin v) (d_sub lower (Fin tol))
               then d_max bound_viol (d_sub lower (Fin v))
               else if d_lt (d_add upper (Fin tol)) (Fin v)
               then d_max bound_viol (d_sub (Fin v) upper)
               else bound_viol)
        in viol_col_loop om tol cv is (obj', integrality_viol', bound_viol')))))))"

fun viol_row_loop ::
  "HighsLp \<Rightarrow> real \<Rightarrow> real list \<Rightarrow> nat list \<Rightarrow> double \<Rightarrow> error + double" where
  "viol_row_loop om tol rv [] row_viol = Inr row_viol"
| "viol_row_loop om tol rv (i # is) row_viol =
     ebind (rd rv i) (\<lambda>v.
     ebind (rd (row_lower om) i) (\<lambda>lower.
     ebind (rd (row_upper om) i) (\<lambda>upper.
       viol_row_loop om tol rv is
         (if d_lt (Fin v) (d_sub lower (Fin tol))
          then d_max row_viol (d_sub lower (Fin v))
          else if d_lt (d_add upper (Fin tol)) (Fin v)
          then d_max row_viol (d_sub (Fin v) upper)
          else row_viol))))"

text \<open>
  What one pass leaves in the local variables: the solution it looked at, the objective
  in the original space with the original offset, the three violations and
  \<^verbatim>\<open>feasible\<close>. The last two fields are not in the source: they count the passes of the
  violation check and the runs of the repair solver made so far.
\<close>

record check_result =
  cr_solution :: HighsSolution
  cr_objective :: real
  cr_bound_violation :: double
  cr_integrality_violation :: double
  cr_row_violation :: double
  cr_feasible :: bool
  cr_passes :: nat
  cr_repairs :: nat

definition violation_pass :: "mip_env \<Rightarrow> HighsSolution \<Rightarrow> error + check_result" where
  "violation_pass env solution =
    (let om = orig_model env; tol = mip_feasibility_tolerance (options_mip env) in
     ebind (viol_col_loop om tol (col_value solution) [0..<num_col om]
              (offset om, Fin 0, Fin 0)) (\<lambda>(obj, integrality_viol, bound_viol).
     ebind (viol_row_loop om tol (row_value solution) [0..<num_row om] (Fin 0)) (\<lambda>row_viol.
       Inr \<lparr> cr_solution = solution, cr_objective = obj,
             cr_bound_violation = bound_viol,
             cr_integrality_violation = integrality_viol,
             cr_row_violation = row_viol,
             cr_feasible = (d_le bound_viol (Fin tol) \<and> d_le integrality_viol (Fin tol)
                            \<and> d_le row_viol (Fin tol)),
             cr_passes = 0, cr_repairs = 0 \<rparr>)))"

text \<open>\<^verbatim>\<open>std::round\<close>: to the nearest integer, halfway cases away from zero.\<close>

definition std_round :: "real \<Rightarrow> real" where
  "std_round x = (if 0 \<le> x then of_int \<lfloor>x + 1/2\<rfloor> else - of_int \<lfloor>- x + 1/2\<rfloor>)"

text \<open>
  The repair model: the original model with every integer column fixed to the rounded
  value of the candidate, and no integrality.
\<close>

fun fix_integers :: "HighsLp \<Rightarrow> real list \<Rightarrow> nat list \<Rightarrow> HighsLp \<Rightarrow> error + HighsLp" where
  "fix_integers om cv [] fixedModel = Inr fixedModel"
| "fix_integers om cv (i # is) fixedModel =
     ebind (rd (integrality om) i) (\<lambda>ty.
       if ty = kInteger then
         ebind (rd cv i) (\<lambda>v.
         ebind (rd (col_lower fixedModel) i) (\<lambda>lo.
         ebind (rd (col_upper fixedModel) i) (\<lambda>up.
           fix_integers om cv is
             (fixedModel\<lparr> col_lower := (col_lower fixedModel)[i := d_max lo (Fin (std_round v))],
                          col_upper := (col_upper fixedModel)[i := d_min up (Fin (std_round v))] \<rparr>))))
       else fix_integers om cv is fixedModel)"

definition fixedModel_of :: "mip_env \<Rightarrow> HighsSolution \<Rightarrow> error + HighsLp" where
  "fixedModel_of env solution =
     fix_integers (orig_model env) (col_value solution) [0..<num_col (orig_model env)]
       ((orig_model env)\<lparr> integrality := [] \<rparr>)"

text \<open>
  The label \<^verbatim>\<open>try_again\<close> with its flag \<^verbatim>\<open>allow_try_again\<close>: check the violations;
  if the candidate is infeasible and the flag is still set, solve the repair model, and
  if that has a feasible primal solution take it, clear the flag and jump back.
\<close>

function try_again :: "mip_env \<Rightarrow> bool \<Rightarrow> HighsSolution \<Rightarrow> nat \<Rightarrow> nat \<Rightarrow> error + check_result" where
  "try_again env allow_try_again solution passes repairs =
     (case violation_pass env solution of
        Inl e \<Rightarrow> Inl e
      | Inr r \<Rightarrow>
          if \<not> cr_feasible r \<and> allow_try_again then
            (case fixedModel_of env solution of
               Inl e \<Rightarrow> Inl e
             | Inr fixedModel \<Rightarrow>
                 (case tmpSolver_run env fixedModel of
                    (primal_feasible, cv, rv) \<Rightarrow>
                      if primal_feasible
                      then try_again env False \<lparr> col_value = cv, row_value = rv \<rparr>
                             (passes + 1) (repairs + 1)
                      else Inr (r\<lparr> cr_passes := passes + 1, cr_repairs := repairs + 1 \<rparr>)))
          else Inr (r\<lparr> cr_passes := passes + 1, cr_repairs := repairs \<rparr>))"
  by pat_completeness auto
termination
  by (relation "measure (\<lambda>(env, allow_try_again, solution, passes, repairs).
                   if allow_try_again then 1 else 0)") auto

declare try_again.simps [simp del]

text \<open>
  \<^verbatim>\<open>transformNewIntegerFeasibleSolution(sol, possibly_store_as_new_incumbent)\<close>:
  postsolve, row values, the check with its one repair, then the storing and the value
  returned. The result is the returned double, the state, and the outcome of the check.
  The MIP-solution callback and the warning are notifications and are left out.
\<close>

definition store_solution :: "check_result \<Rightarrow> mip_state \<Rightarrow> mip_state" where
  "store_solution r s =
     s\<lparr> row_violation := cr_row_violation r,
        bound_violation := cr_bound_violation r,
        integrality_violation := cr_integrality_violation r,
        mipsolver_solution := col_value (cr_solution r),
        solution_objective := Fin (cr_objective r) \<rparr>"

definition currentFeasible :: "mip_env \<Rightarrow> mip_state \<Rightarrow> bool" where
  "currentFeasible env s =
    (let tol = Fin (mip_feasibility_tolerance (options_mip env)) in
     \<not> d_eq (solution_objective s) kHighsInf
     \<and> d_le (bound_violation s) tol
     \<and> d_le (integrality_violation s) tol
     \<and> d_le (row_violation s) tol)"

definition transformed_objective :: "mip_env \<Rightarrow> real \<Rightarrow> double" where
  "transformed_objective env obj =
     (if sense (orig_model env) = kMaximize
      then Fin (- (obj + offset (model env)))
      else Fin (obj - offset (model env)))"

definition transformNewIntegerFeasibleSolution ::
  "mip_env \<Rightarrow> mip_state \<Rightarrow> real list \<Rightarrow> bool \<Rightarrow> error + double \<times> mip_state \<times> check_result" where
  "transformNewIntegerFeasibleSolution env s sol possibly_store_as_new_incumbent =
    (let cv = undoPrimal env sol;
         solution0 = \<lparr> col_value = cv, row_value = calculateRowValuesQuad env cv \<rparr>
     in ebind (try_again env True solution0 0 0) (\<lambda>r.
       if possibly_store_as_new_incumbent then
         (if cr_feasible r
          then Inr (transformed_objective env (cr_objective r), store_solution r s, r)
          else Inr (kHighsInf,
                    (if \<not> currentFeasible env s then store_solution r s else s), r))
       else Inr (transformed_objective env (cr_objective r), s, r)))"

section \<open>Incumbent acceptance\<close>

text \<open>
  What the collaborators answer during one call of \<^verbatim>\<open>addIncumbent\<close>:
  \<^verbatim>\<open>domain.infeasible()\<close> after \<^verbatim>\<open>domain.propagate()\<close>, after
  \<^verbatim>\<open>redcostfixing.propagateRootRedcost\<close> and after \<^verbatim>\<open>cliquetable.extractObjCliques\<close>,
  and the weight returned by \<^verbatim>\<open>nodequeue.performBounding(upper_limit)\<close>.
\<close>

record addinc_ext =
  propagate_infeasible :: bool
  redcost_infeasible :: bool
  objcliques_infeasible :: bool
  performBounding_weight :: real

text \<open>
  \<^verbatim>\<open>addIncumbent(sol, solobj, solution_source)\<close>. \<^verbatim>\<open>saveReportMipSolution\<close> and
  \<^verbatim>\<open>printDisplayLine\<close> report and log; the node queue and the domain are not part of
  the state kept here.
\<close>

definition addIncumbent ::
  "mip_env \<Rightarrow> addinc_ext \<Rightarrow> mip_state \<Rightarrow> real list \<Rightarrow> double \<Rightarrow> error + bool \<times> mip_state" where
  "addIncumbent env x s sol solobj =
    (let execute_mip_solution_callback =
           (\<not> submip env \<and> (if user_callback env then active_kCallbackMipSolution env else False));
         possibly_store_as_new_incumbent = d_lt solobj (upper_bound s);
         get_transformed_solution =
           (possibly_store_as_new_incumbent \<or> execute_mip_solution_callback)
     in ebind (if get_transformed_solution
               then ebind (transformNewIntegerFeasibleSolution env s sol
                             possibly_store_as_new_incumbent) (\<lambda>(t, s1, r). Inr (t, s1))
               else Inr (Fin 0, s)) (\<lambda>(transformed_solobj, s1).
       if possibly_store_as_new_incumbent then
         (if d_le (upper_bound s1) transformed_solobj then Inr (False, s1)
          else
            (let s2 = s1\<lparr> upper_bound := transformed_solobj, incumbent := sol \<rparr>;
                 new_upper_limit = computeNewUpperLimit env transformed_solobj (Fin 0) (Fin 0)
             in if d_lt new_upper_limit (upper_limit s2) then
                  (let s3 = s2\<lparr> numImprovingSols := numImprovingSols s2 + 1,
                                 upper_limit := new_upper_limit,
                                 optimality_limit :=
                                   computeNewUpperLimit env transformed_solobj
                                     (mip_abs_gap (options_mip env))
                                     (mip_rel_gap (options_mip env)) \<rparr>
                   in if (if propagate_infeasible x then True else redcost_infeasible x)
                      then Inr (True, s3\<lparr> pruned_treeweight := 1 \<rparr>)
                      else if objcliques_infeasible x
                      then Inr (True, s3\<lparr> pruned_treeweight := 1 \<rparr>)
                      else Inr (True, s3\<lparr> pruned_treeweight :=
                                            pruned_treeweight s3 + performBounding_weight x \<rparr>))
                else Inr (True, s2)))
       else if incumbent s1 = [] then Inr (True, s1\<lparr> incumbent := sol \<rparr>)
       else Inr (True, s1)))"

definition trySolution ::
  "mip_env \<Rightarrow> addinc_ext \<Rightarrow> mip_state \<Rightarrow> real list \<Rightarrow> error + bool \<times> mip_state" where
  "trySolution env x s sol =
     ebind (solutionColFeasible env sol) (\<lambda>r.
       case r of
         None \<Rightarrow> Inr (False, s)
       | Some obj \<Rightarrow>
           ebind (solutionRowFeasible env sol) (\<lambda>row_ok.
             if \<not> row_ok then Inr (False, s) else addIncumbent env x s sol (Fin obj)))"

section \<open>Bounds for display\<close>

text \<open>\<^verbatim>\<open>limitsToBounds(dual_bound, primal_bound, mip_rel_gap)\<close>: the three outputs.\<close>

definition snap_zero :: "real \<Rightarrow> double \<Rightarrow> double" where
  "snap_zero eps v = (if d_le (d_abs v) (Fin eps) then Fin 0 else v)"

definition limitsToBounds :: "mip_env \<Rightarrow> mip_state \<Rightarrow> double \<times> double \<times> double" where
  "limitsToBounds env s =
    (let dual0 = snap_zero (epsilon env) (d_add (lower_bound s) (Fin (offset (model env))));
         (dual_bound, primal_bound, mip_rel_gap) =
           (if \<not> d_eq (upper_bound s) kHighsInf then
              (let primal = snap_zero (epsilon env)
                              (d_add (upper_bound s) (Fin (offset (model env))));
                   dual = d_min dual0 primal
               in (dual, primal,
                   if d_eq primal (Fin 0)
                   then (if d_eq dual (Fin 0) then Fin 0 else kHighsInf)
                   else d_div (d_mul (Fin 100) (d_sub primal dual)) (d_abs primal)))
            else (dual0, kHighsInf, kHighsInf));
         primal_bound' = d_min (objective_bound (options_mip env)) primal_bound
     in if sense (orig_model env) = kMaximize
        then (d_neg dual_bound, d_neg primal_bound', mip_rel_gap)
        else (dual_bound, primal_bound', mip_rel_gap))"

section \<open>Limit checking\<close>

text \<open>
  What one call of \<^verbatim>\<open>checkLimits\<close> observes outside the state: whether the interrupt
  callback is active (\<^verbatim>\<open>callbackActive\<close>), what the user's callback answers
  (\<^verbatim>\<open>callbackAction\<close>), and the solve clock.
\<close>

record checklimits_ext =
  callbackActive :: bool
  callbackAction :: bool
  timer_read :: real

definition interruptFromCallbackWithData :: "checklimits_ext \<Rightarrow> bool" where
  "interruptFromCallbackWithData x = (if \<not> callbackActive x then False else callbackAction x)"

text \<open>The guarded write \<^verbatim>\<open>if (modelstatus_ == kNotset) modelstatus_ = st\<close>.\<close>

definition set_status_if_notset :: "HighsModelStatus \<Rightarrow> mip_state \<Rightarrow> mip_state" where
  "set_status_if_notset st s = (if modelstatus s = kNotset then s\<lparr> modelstatus := st \<rparr> else s)"

definition reached_objective_target :: "mip_env \<Rightarrow> mip_state \<Rightarrow> bool" where
  "reached_objective_target env s =
     d_lt (d_mul (Fin (int_sense (sense (orig_model env)))) (solution_objective s))
          (d_mul (Fin (int_sense (sense (orig_model env))))
             (objective_target (options_mip env)))"

definition checkLimits ::
  "mip_env \<Rightarrow> checklimits_ext \<Rightarrow> int \<Rightarrow> mip_state \<Rightarrow> bool \<times> mip_state" where
  "checkLimits env x nodeOffset s =
    (let options = options_mip env in
     if \<not> submip env \<and> user_callback env \<and> interruptFromCallbackWithData x
     then (True, set_status_if_notset kInterrupt s)
     else if \<not> submip env \<and> d_lt (solution_objective s) kHighsInf
             \<and> d_lt (d_neg kHighsInf) (objective_target options)
             \<and> reached_objective_target env s
     then (True, set_status_if_notset kObjectiveTarget s)
     else if mip_max_nodes options \<noteq> kHighsIInf
             \<and> mip_max_nodes options \<le> num_nodes s + nodeOffset
     then (True, set_status_if_notset kSolutionLimit s)
     else if mip_max_leaves options \<noteq> kHighsIInf \<and> mip_max_leaves options \<le> num_leaves s
     then (True, set_status_if_notset kSolutionLimit s)
     else if mip_max_improving_sols options \<noteq> kHighsIInf
             \<and> mip_max_improving_sols options \<le> numImprovingSols s
     then (True, set_status_if_notset kSolutionLimit s)
     else if d_le (time_limit options) (Fin (timer_read x))
     then (True, set_status_if_notset kTimeLimit s)
     else (False, s))"

section \<open>Root LP evaluation\<close>

text \<open>
  What the domain and the LP relaxation answer during one iteration of the loop of
  \<^verbatim>\<open>evaluateRootLp\<close>, in the order the code asks.
\<close>

record rootlp_iter =
  it_propagate_infeasible :: bool
  it_orbital_infeasible :: bool
  it_changedCols_nonempty :: bool
  it_lpsolver_status_notset :: bool
  it_resolve_status :: LpStatus
  it_lpIters :: int
  it_fractionalIntegers_empty :: bool
  it_lp_col_value :: "real list"
  it_lp_objective :: double
  it_addinc :: addinc_ext
  it_lp_status :: LpStatus
  it_unscaledDualFeasible :: bool
  it_changedCols_empty_end :: bool

text \<open>The three lines that close a branch: the tree is pruned, one node, one leaf.\<close>

definition count_leaf :: "mip_state \<Rightarrow> mip_state" where
  "count_leaf s =
     s\<lparr> pruned_treeweight := 1, num_nodes := num_nodes s + 1, num_leaves := num_leaves s + 1 \<rparr>"

text \<open>
  The part of the loop body after the resolve: an infeasible LP, the dual bound, the
  optimality limit, and the test that ends the loop. \<open>Inl\<close> is a \<^verbatim>\<open>return\<close>,
  \<open>Inr\<close> the state the next iteration starts from.
\<close>

definition rootlp_bound_phase ::
  "rootlp_iter \<Rightarrow> LpStatus \<Rightarrow> mip_state \<Rightarrow> (LpStatus \<times> mip_state) + mip_state" where
  "rootlp_bound_phase e status s =
    (if status = LpInfeasible
     then Inl (status, count_leaf (s\<lparr> lower_bound := d_min kHighsInf (upper_bound s) \<rparr>))
     else
       (let s1 = (if it_unscaledDualFeasible e
                  then s\<lparr> lower_bound := d_max (it_lp_objective e) (lower_bound s) \<rparr>
                  else s)
        in if d_lt (optimality_limit s1) (lower_bound s1)
           then Inl (LpInfeasible, count_leaf s1)
           else if it_changedCols_empty_end e then Inl (status, s1)
           else Inr s1))"

definition rootlp_iteration ::
  "mip_env \<Rightarrow> rootlp_iter \<Rightarrow> mip_state \<Rightarrow> error + ((LpStatus \<times> mip_state) + mip_state)" where
  "rootlp_iteration env e s =
    (if (if has_globalOrbits env \<and> \<not> it_propagate_infeasible e
         then it_orbital_infeasible e else it_propagate_infeasible e)
     then Inr (Inl (LpInfeasible,
                    count_leaf (s\<lparr> lower_bound := d_min kHighsInf (upper_bound s) \<rparr>)))
     else if it_changedCols_nonempty e \<or> it_lpsolver_status_notset e then
       (let s1 = s\<lparr> total_lp_iterations := total_lp_iterations s + it_lpIters e \<rparr>;
            status = it_resolve_status e
        in if status = LpUnbounded then
             Inr (Inl (status,
                       count_leaf (s1\<lparr> modelstatus :=
                                          (if mipsolver_solution s1 = []
                                           then kUnboundedOrInfeasible else kUnbounded) \<rparr>)))
           else if status = LpOptimal \<and> it_fractionalIntegers_empty e then
             ebind (addIncumbent env (it_addinc e) s1 (it_lp_col_value e) (it_lp_objective e))
               (\<lambda>(accepted, s2).
                  if accepted
                  then Inr (Inl (LpInfeasible,
                                 count_leaf (s2\<lparr> modelstatus := kOptimal,
                                                  lower_bound := upper_bound s2 \<rparr>)))
                  else Inr (rootlp_bound_phase e status s2))
           else Inr (rootlp_bound_phase e status s1))
     else Inr (rootlp_bound_phase e (it_lp_status e) s))"

text \<open>
  \<^verbatim>\<open>evaluateRootLp()\<close>: the \<^verbatim>\<open>do ... while (true)\<close> loop, one list element per
  iteration. The code has no bound on the iterations; \<open>None\<close> says that the loop is still
  running when the answers given are used up.
\<close>

fun evaluateRootLp ::
  "mip_env \<Rightarrow> rootlp_iter list \<Rightarrow> mip_state \<Rightarrow> (error + LpStatus \<times> mip_state) option" where
  "evaluateRootLp env [] s = None"
| "evaluateRootLp env (e # es) s =
     (case rootlp_iteration env e s of
        Inl err \<Rightarrow> Some (Inl err)
      | Inr (Inl ret) \<Rightarrow> Some (Inr ret)
      | Inr (Inr s') \<Rightarrow> evaluateRootLp env es s')"

section \<open>Restart\<close>

text \<open>
  What \<^verbatim>\<open>runSetup\<close> is told: the incumbent mapped to the new presolved model
  (\<^verbatim>\<open>postSolveStack.getReducedPrimalSolution\<close>), the answers for the call of
  \<^verbatim>\<open>addIncumbent\<close> on a model without columns, \<^verbatim>\<open>domain.infeasible()\<close> after the
  first propagation, and the answers for its \<^verbatim>\<open>checkLimits()\<close>.
\<close>

record setup_ext =
  su_reducedPrimalSolution :: "real list"
  su_addinc :: addinc_ext
  su_propagate_infeasible :: bool
  su_checklimits :: checklimits_ext

text \<open>
  The loop of \<^verbatim>\<open>runSetup\<close> that sorts the columns by type throws
  \<^verbatim>\<open>std::logic_error\<close> on a semi-continuous or semi-integer column.
\<close>

fun classify_cols :: "HighsVarType list \<Rightarrow> nat list \<Rightarrow> error + unit" where
  "classify_cols tys [] = Inr ()"
| "classify_cols tys (i # is) =
     ebind (rd tys i) (\<lambda>ty.
       if ty = kSemiContinuous \<or> ty = kSemiInteger then Inl LogicError
       else classify_cols tys is)"

text \<open>
  \<^verbatim>\<open>runSetup()\<close> on the fields of the state; \<open>env\<close> is the environment of the model
  presolve has just produced. Its first part moves the limits and bounds to the space
  of that model and installs the incumbent kept from before. Its other work (locks, row integrality, the column lists,
  the basis transfer, clearing the symmetry and analytic-centre data) writes none of
  these fields. \<^verbatim>\<open>checkLimits()\<close> is called without an argument. Modelled from the
  spec: the default of its node offset is declared outside this file; the limit is on the
  nodes counted so far, so it is 0.
\<close>

definition runSetup_incumbent :: "mip_env \<Rightarrow> setup_ext \<Rightarrow> mip_state \<Rightarrow> mip_state" where
  "runSetup_incumbent env x s =
    (let off = Fin (offset (model env));
         tol = Fin (mip_feasibility_tolerance (options_mip env));
         s1 = s\<lparr> upper_limit := d_sub (upper_limit s) off,
                 optimality_limit := d_sub (optimality_limit s) off,
                 lower_bound := d_sub (lower_bound s) off,
                 upper_bound := d_sub (upper_bound s) off \<rparr>
     in if \<not> d_eq (solution_objective s1) kHighsInf then
          (let s1a = s1\<lparr> incumbent := su_reducedPrimalSolution x \<rparr>;
               solobj = d_sub (d_mul (solution_objective s1a)
                                 (Fin (int_sense (sense (orig_model env))))) off;
               feasible = (d_le (bound_violation s1a) tol
                           \<and> d_le (integrality_violation s1a) tol
                           \<and> d_le (row_violation s1a) tol)
           in if feasible \<and> d_lt solobj (upper_bound s1a) then
                (let s1b = s1a\<lparr> upper_bound := solobj \<rparr>;
                     new_upper_limit = computeNewUpperLimit env solobj (Fin 0) (Fin 0)
                 in if d_lt new_upper_limit (upper_limit s1b)
                    then s1b\<lparr> upper_limit := new_upper_limit,
                              optimality_limit :=
                                computeNewUpperLimit env solobj
                                  (mip_abs_gap (options_mip env))
                                  (mip_rel_gap (options_mip env)) \<rparr>
                    else s1b)
              else s1a)
        else s1)"

definition runSetup :: "mip_env \<Rightarrow> setup_ext \<Rightarrow> mip_state \<Rightarrow> error + mip_state" where
  "runSetup env x s =
    (let s2 = runSetup_incumbent env x s
     in ebind (if num_col (model env) = 0
               then ebind (addIncumbent env (su_addinc x) s2 [] (Fin 0)) (\<lambda>(accepted, s'). Inr s')
               else Inr s2) (\<lambda>s3.
       if su_propagate_infeasible x
       then Inr (s3\<lparr> modelstatus := kInfeasible, lower_bound := kHighsInf,
                     pruned_treeweight := 1 \<rparr>)
       else if num_col (model env) = 0 then Inr (s3\<lparr> modelstatus := kOptimal \<rparr>)
       else
         (case checkLimits env (su_checklimits x) 0 s3 of
            (stop, s4) \<Rightarrow>
              if stop then Inr s4
              else ebind (classify_cols (integrality (model env)) [0..<num_col (model env)])
                     (\<lambda>u. Inr s4))))"

text \<open>
  What \<^verbatim>\<open>performRestart\<close> is told: the model status \<^verbatim>\<open>presolve.run\<close> returns
  (\<^verbatim>\<open>runPresolve\<close> stores it in \<^verbatim>\<open>modelstatus_\<close>), and the answers for
  \<^verbatim>\<open>runSetup\<close>.
\<close>

record restart_ext =
  rs_presolve_status :: HighsModelStatus
  rs_setup :: setup_ext

text \<open>
  \<^verbatim>\<open>performRestart()\<close> on the fields of the state: \<open>env\<close> is the environment before
  presolve runs again, \<open>env'\<close> the one after. The pseudocost initialisation, the cuts
  folded into the model and the expansion of the root basis write none of these fields.
  \<^verbatim>\<open>transformNewIntegerFeasibleSolution\<close> is called with one argument. Modelled from
  the spec: the default of its second parameter is declared outside this file; the call
  is there to store the solution of the model presolve has solved, so it is \<^verbatim>\<open>true\<close>.
\<close>

definition performRestart ::
  "mip_env \<Rightarrow> mip_env \<Rightarrow> restart_ext \<Rightarrow> mip_state \<Rightarrow> error + mip_state" where
  "performRestart env env' x s =
    (let off = Fin (offset (model env));
         off' = Fin (offset (model env'));
         s1 = s\<lparr> numRestarts := numRestarts s + 1,
                 num_leaves_before_run := num_leaves s,
                 num_nodes_before_run := num_nodes s,
                 total_lp_iterations_before_run := total_lp_iterations s,
                 upper_limit := d_add (upper_limit s) off,
                 optimality_limit := d_add (optimality_limit s) off,
                 upper_bound := d_add (upper_bound s) off,
                 lower_bound := d_add (lower_bound s) off,
                 incumbent := [],
                 pruned_treeweight := 0,
                 modelstatus := rs_presolve_status x \<rparr>
     in if modelstatus s1 \<noteq> kNotset then
          (let s2 = s1\<lparr> upper_limit := d_sub (upper_limit s1) off',
                         optimality_limit := d_sub (optimality_limit s1) off' \<rparr>
           in ebind (if modelstatus s2 = kOptimal
                     then ebind (transformNewIntegerFeasibleSolution env'
                                   (s2\<lparr> upper_bound := Fin 0 \<rparr>) [] True)
                            (\<lambda>(t, s', r). Inr s')
                     else Inr (s2\<lparr> upper_bound := d_sub (upper_bound s2) off' \<rparr>)) (\<lambda>s3.
                (let s4 = s3\<lparr> lower_bound := upper_bound s3 \<rparr>
                 in Inr (if \<not> d_eq (solution_objective s4) kHighsInf
                            \<and> modelstatus s4 = kInfeasible
                         then s4\<lparr> modelstatus := kOptimal \<rparr> else s4))))
        else runSetup env' (rs_setup x) s1)"

section \<open>Notions used by the properties\<close>

text \<open>
  The bound invariant of the solve state: when both bounds are finite, the lower bound
  is at most the upper bound plus the tolerance.
\<close>

definition bound_consistent :: "real \<Rightarrow> mip_state \<Rightarrow> bool" where
  "bound_consistent tol s =
     (case lower_bound s of
        Fin l \<Rightarrow> (case upper_bound s of Fin u \<Rightarrow> l \<le> u + tol | _ \<Rightarrow> True)
      | _ \<Rightarrow> True)"


text \<open>
  The limits as the specification lists them: each stop condition with the status it
  stands for, in the order user interrupt, objective target, node count, leaf count,
  improving-solution count, time; and the first of them that holds.
\<close>

definition limit_conditions ::
  "mip_env \<Rightarrow> checklimits_ext \<Rightarrow> int \<Rightarrow> mip_state \<Rightarrow> (bool \<times> HighsModelStatus) list" where
  "limit_conditions env x nodeOffset s =
    [ (\<not> submip env \<and> user_callback env \<and> callbackActive x \<and> callbackAction x, kInterrupt),
      (\<not> submip env \<and> d_lt (solution_objective s) PInf
         \<and> d_lt MInf (objective_target (options_mip env))
         \<and> (case sense (orig_model env) of
               kMinimize \<Rightarrow>
                 d_lt (d_mul (Fin 1) (solution_objective s))
                      (d_mul (Fin 1) (objective_target (options_mip env)))
             | kMaximize \<Rightarrow>
                 d_lt (d_mul (Fin (- 1)) (solution_objective s))
                      (d_mul (Fin (- 1)) (objective_target (options_mip env)))),
       kObjectiveTarget),
      (mip_max_nodes (options_mip env) \<noteq> 2147483647
         \<and> mip_max_nodes (options_mip env) \<le> num_nodes s + nodeOffset, kSolutionLimit),
      (mip_max_leaves (options_mip env) \<noteq> 2147483647
         \<and> mip_max_leaves (options_mip env) \<le> num_leaves s, kSolutionLimit),
      (mip_max_improving_sols (options_mip env) \<noteq> 2147483647
         \<and> mip_max_improving_sols (options_mip env) \<le> numImprovingSols s, kSolutionLimit),
      (d_le (time_limit (options_mip env)) (Fin (timer_read x)), kTimeLimit) ]"

fun first_limit_hit :: "(bool \<times> HighsModelStatus) list \<Rightarrow> HighsModelStatus option" where
  "first_limit_hit [] = None"
| "first_limit_hit ((hit, st) # rest) = (if hit then Some st else first_limit_hit rest)"

text \<open>
  Vectors of the right length: a model whose column and row vectors have as many
  entries as it has columns and rows, a solution that fits a model, and a repair solver
  whose feasible solutions fit the original model.
\<close>

definition wf_lp :: "HighsLp \<Rightarrow> bool" where
  "wf_lp lp =
     (length (col_cost lp) = num_col lp \<and> length (col_lower lp) = num_col lp
      \<and> length (col_upper lp) = num_col lp \<and> length (integrality lp) = num_col lp
      \<and> length (row_lower lp) = num_row lp \<and> length (row_upper lp) = num_row lp)"

definition wf_solution :: "HighsLp \<Rightarrow> HighsSolution \<Rightarrow> bool" where
  "wf_solution lp solution =
     (length (col_value solution) = num_col lp \<and> length (row_value solution) = num_row lp)"

definition wf_repair :: "mip_env \<Rightarrow> bool" where
  "wf_repair env =
     (\<forall>fm. case tmpSolver_run env fm of
             (primal_feasible, cv, rv) \<Rightarrow>
               primal_feasible \<longrightarrow>
                 wf_solution (orig_model env) \<lparr>col_value = cv, row_value = rv\<rparr>)"

text \<open>
  The displayed gap on finite values: a value within \<open>eps\<close> of zero counts as zero;
  the gap of a primal value \<open>p\<close> and a dual value \<open>d\<close> is \<open>100 (p - d) / |p|\<close>, or
  for \<open>p = 0\<close> zero if \<open>d = 0\<close> and infinite otherwise.
\<close>

definition snap_real :: "real \<Rightarrow> real \<Rightarrow> real" where
  "snap_real eps v = (if \<bar>v\<bar> \<le> eps then 0 else v)"

definition display_gap :: "real \<Rightarrow> real \<Rightarrow> double" where
  "display_gap p d =
     (if p = 0 then (if d = 0 then Fin 0 else PInf) else Fin (100 * (p - d) / \<bar>p\<bar>))"

section \<open>A small instance\<close>

text \<open>
  One integer column with cost 1 and bounds 0 and 10, no rows, minimisation, no
  presolve reductions (postsolve is the identity), the objective integral with scale 1,
  a cutoff arithmetic that is exact (rounding leaves every value as it is), and a repair
  solver that finds nothing. The state is the one \<^verbatim>\<open>init()\<close> leaves.
\<close>

definition ex_lp :: HighsLp where
  "ex_lp = \<lparr> num_col = 1, num_row = 0, col_cost = [1], col_lower = [Fin 0],
             col_upper = [Fin 10], row_lower = [], row_upper = [],
             integrality = [kInteger], offset = 0, sense = kMinimize \<rparr>"

definition ex_options :: HighsOptions where
  "ex_options = \<lparr> mip_feasibility_tolerance = 1 / 1000000,
                  primal_feasibility_tolerance = 1 / 10000000,
                  mip_abs_gap = Fin (1 / 1000000), mip_rel_gap = Fin (1 / 10000),
                  objective_target = MInf, objective_bound = PInf, time_limit = PInf,
                  mip_max_nodes = 2147483647, mip_max_leaves = 2147483647,
                  mip_max_improving_sols = 2147483647 \<rparr>"

definition ex_env :: mip_env where
  "ex_env = \<lparr> model = ex_lp, orig_model = ex_lp, options_mip = ex_options,
              submip = False, feastol = 1 / 1000000, epsilon = 1 / 1000000000,
              isIntegral = True, integralScale = 1,
              round_double = Fin,
              nextafter_down = (\<lambda>d. d_sub d (Fin (1 / 1000000000000))),
              ARstart = [0], ARindex = [], ARvalue = [],
              user_callback = False, active_kCallbackMipSolution = False,
              has_globalOrbits = False,
              undoPrimal = (\<lambda>sol. sol),
              calculateRowValuesQuad = (\<lambda>cv. []),
              tmpSolver_run = (\<lambda>m. (False, [], [])) \<rparr>"

definition ex_state :: mip_state where
  "ex_state = \<lparr> lower_bound = MInf, upper_bound = PInf, upper_limit = PInf,
                optimality_limit = PInf, incumbent = [], pruned_treeweight = 0,
                num_nodes = 0, num_leaves = 0, numImprovingSols = 0,
                total_lp_iterations = 0, numRestarts = 0, num_nodes_before_run = 0,
                num_leaves_before_run = 0, total_lp_iterations_before_run = 0,
                modelstatus = kNotset, mipsolver_solution = [],
                solution_objective = PInf, bound_violation = Fin 0,
                integrality_violation = Fin 0, row_violation = Fin 0 \<rparr>"

definition ex_addinc :: addinc_ext where
  "ex_addinc = \<lparr> propagate_infeasible = False, redcost_infeasible = False,
                 objcliques_infeasible = False, performBounding_weight = 0 \<rparr>"

definition ex_checklimits :: checklimits_ext where
  "ex_checklimits = \<lparr> callbackActive = False, callbackAction = False, timer_read = 1 \<rparr>"

text \<open>Variants: a repair solver that returns the column at its upper bound; a node limit
  of 5 and of 10; a registered user callback, and a call of the limit check in which the
  callback asks to interrupt.\<close>

definition ex_env_repair :: mip_env where
  "ex_env_repair = ex_env\<lparr> tmpSolver_run := (\<lambda>m. (True, [10], [])) \<rparr>"

definition ex_env_nodes :: mip_env where
  "ex_env_nodes = ex_env\<lparr> options_mip := ex_options\<lparr> mip_max_nodes := 5 \<rparr> \<rparr>"

definition ex_env_nodes10 :: mip_env where
  "ex_env_nodes10 = ex_env\<lparr> options_mip := ex_options\<lparr> mip_max_nodes := 10 \<rparr> \<rparr>"

definition ex_env_callback :: mip_env where
  "ex_env_callback = ex_env\<lparr> user_callback := True \<rparr>"

definition ex_checklimits_interrupt :: checklimits_ext where
  "ex_checklimits_interrupt = ex_checklimits\<lparr> callbackActive := True, callbackAction := True \<rparr>"





text \<open>States: bounds 1 and 10; the state after the candidate with value 3 has been
  accepted from there; lower bound 5 with upper bound 3; lower bound \<open>+infinity\<close> with
  upper bound 3 (what \<^verbatim>\<open>runSetup\<close> leaves on an infeasible domain); seven nodes
  explored; half of the tree pruned; the state after the candidate with value 20, above
  the column's upper bound 10, has been stored as a fallback at the start.\<close>

definition ex_state_1_10 :: mip_state where
  "ex_state_1_10 = ex_state\<lparr> lower_bound := Fin 1, upper_bound := Fin 10 \<rparr>"

definition ex_state_1_3 :: mip_state where
  "ex_state_1_3 =
     ex_state_1_10\<lparr> upper_bound := Fin 3, upper_limit := Fin (2000001 / 1000000),
                     optimality_limit := Fin (2000001 / 1000000), incumbent := [3],
                     numImprovingSols := 1, mipsolver_solution := [3],
                     solution_objective := Fin 3 \<rparr>"

definition ex_state_5_3 :: mip_state where
  "ex_state_5_3 = ex_state_1_3\<lparr> lower_bound := Fin 5 \<rparr>"

definition ex_state_inf_3 :: mip_state where
  "ex_state_inf_3 = ex_state_1_3\<lparr> lower_bound := PInf \<rparr>"


definition ex_state_nodes :: mip_state where
  "ex_state_nodes = ex_state\<lparr> num_nodes := 7 \<rparr>"

definition ex_state_half :: mip_state where
  "ex_state_half = ex_state_1_10\<lparr> pruned_treeweight := 1 / 2 \<rparr>"

text \<open>Answers of the collaborators: a bounding step that prunes a quarter of the tree;
  an iteration of the root loop in which the LP is resolved to a fractional optimum with
  objective 2, and the same with objective 5 and with an unbounded LP; a restart whose
  presolve leaves the status undetermined.\<close>

definition ex_addinc_quarter :: addinc_ext where
  "ex_addinc_quarter = ex_addinc\<lparr> performBounding_weight := 1 / 4 \<rparr>"

definition ex_iter :: rootlp_iter where
  "ex_iter = \<lparr> it_propagate_infeasible = False, it_orbital_infeasible = False,
               it_changedCols_nonempty = True, it_lpsolver_status_notset = False,
               it_resolve_status = LpOptimal, it_lpIters = 7,
               it_fractionalIntegers_empty = False, it_lp_col_value = [5 / 2],
               it_lp_objective = Fin 2, it_addinc = ex_addinc, it_lp_status = LpOptimal,
               it_unscaledDualFeasible = True, it_changedCols_empty_end = True \<rparr>"

definition ex_iter_obj5 :: rootlp_iter where
  "ex_iter_obj5 = ex_iter\<lparr> it_lp_objective := Fin 5 \<rparr>"



definition ex_restart :: restart_ext where
  "ex_restart = \<lparr> rs_presolve_status = kNotset,
                  rs_setup = \<lparr> su_reducedPrimalSolution = [], su_addinc = ex_addinc,
                               su_propagate_infeasible = False,
                               su_checklimits = ex_checklimits \<rparr> \<rparr>"

section \<open>Auxiliary facts\<close>

lemma ebind_Inr [simp]: "ebind (Inr v) f = f v"
  by (simp add: ebind_def)

lemma ebind_Inl [simp]: "ebind (Inl e) f = Inl e"
  by (simp add: ebind_def)

lemma ebind_eq_Inr: "ebind m f = Inr r \<longleftrightarrow> (\<exists>v. m = Inr v \<and> f v = Inr r)"
  by (cases m) auto

lemma Inr_projr: "\<not> isl X \<Longrightarrow> X = Inr (projr X)"
  by (cases X) auto

subsection \<open>Comparisons of doubles\<close>

lemma d_lt_imp_d_le: "d_lt a b \<Longrightarrow> d_le a b"
  by (cases a; cases b) auto

lemma d_le_refl: "b \<noteq> NaN \<Longrightarrow> d_le b b"
  by (cases b) auto

lemma d_lt_of_not_le:
  "d_lt a b \<Longrightarrow> t = PInf \<or> (\<exists>v. t = Fin v) \<Longrightarrow> \<not> d_le b t \<Longrightarrow> d_lt t b"
  by (cases b; cases t) auto

lemma d_min_inf: "d_min kHighsInf u = (if d_lt u PInf then u else PInf)"
  by (simp add: d_min_def kHighsInf_def)

subsection \<open>What the transformation writes and returns\<close>

lemma transform_bounds:
  "transformNewIntegerFeasibleSolution env s sol flag = Inr (t, s1, r) \<Longrightarrow>
     upper_bound s1 = upper_bound s \<and> lower_bound s1 = lower_bound s
     \<and> pruned_treeweight s1 = pruned_treeweight s \<and> incumbent s1 = incumbent s
     \<and> upper_limit s1 = upper_limit s \<and> optimality_limit s1 = optimality_limit s
     \<and> modelstatus s1 = modelstatus s"
  by (auto simp: transformNewIntegerFeasibleSolution_def Let_def ebind_eq_Inr store_solution_def
        split: if_splits)

lemma transform_value:
  "transformNewIntegerFeasibleSolution env s sol flag = Inr (t, s1, r) \<Longrightarrow>
     t = PInf \<or> (\<exists>v. t = Fin v)"
  by (auto simp: transformNewIntegerFeasibleSolution_def Let_def ebind_eq_Inr kHighsInf_def
        transformed_objective_def split: if_splits)

lemma violation_pass_feasible:
  "violation_pass env sol = Inr r \<Longrightarrow>
     cr_feasible r =
       (d_le (cr_bound_violation r) (Fin (mip_feasibility_tolerance (options_mip env)))
        \<and> d_le (cr_integrality_violation r) (Fin (mip_feasibility_tolerance (options_mip env)))
        \<and> d_le (cr_row_violation r) (Fin (mip_feasibility_tolerance (options_mip env))))"
  by (auto simp: violation_pass_def Let_def ebind_eq_Inr)

lemma try_again_False:
  "try_again env False sol passes repairs = Inr r \<Longrightarrow>
     \<exists>r0. violation_pass env sol = Inr r0
          \<and> r = r0\<lparr>cr_passes := passes + 1, cr_repairs := repairs\<rparr>"
  by (subst (asm) try_again.simps) (auto split: sum.splits)

lemma try_again_True:
  assumes "try_again env True sol passes repairs = Inr r"
  shows "\<exists>sol' r0. violation_pass env sol' = Inr r0
          \<and> (r = r0\<lparr>cr_passes := passes + 1, cr_repairs := repairs\<rparr>
             \<or> r = r0\<lparr>cr_passes := passes + 1, cr_repairs := repairs + 1\<rparr>
             \<or> r = r0\<lparr>cr_passes := passes + 2, cr_repairs := repairs + 1\<rparr>)"
proof -
  from assms obtain r0 where v: "violation_pass env sol = Inr r0"
    by (subst (asm) try_again.simps) (auto split: sum.splits)
  show ?thesis
  proof (cases "cr_feasible r0")
    case True
    with assms v have "r = r0\<lparr>cr_passes := passes + 1, cr_repairs := repairs\<rparr>"
      by (subst (asm) try_again.simps) simp
    with v show ?thesis by blast
  next
    case False
    with assms v obtain fm where fm: "fixedModel_of env sol = Inr fm"
      by (subst (asm) try_again.simps) (auto split: sum.splits)
    obtain pf cv rv where run: "tmpSolver_run env fm = (pf, cv, rv)"
      by (cases "tmpSolver_run env fm") auto
    show ?thesis
    proof (cases pf)
      case True
      with assms v False fm run
      have "try_again env False \<lparr>col_value = cv, row_value = rv\<rparr> (passes + 1) (repairs + 1)
              = Inr r"
        by (subst (asm) try_again.simps) simp
      from try_again_False [OF this] show ?thesis by auto
    next
      case pf: False
      with assms v False fm run
      have "r = r0\<lparr>cr_passes := passes + 1, cr_repairs := repairs + 1\<rparr>"
        by (subst (asm) try_again.simps) simp
      with v show ?thesis by blast
    qed
  qed
qed

lemma transform_try_again:
  assumes "transformNewIntegerFeasibleSolution env s sol flag = Inr (ret, s', r)"
  shows "try_again env True
           \<lparr>col_value = undoPrimal env sol,
              row_value = calculateRowValuesQuad env (undoPrimal env sol)\<rparr> 0 0 = Inr r"
  using assms
  by (auto simp: transformNewIntegerFeasibleSolution_def Let_def ebind_eq_Inr split: if_splits)

lemma try_again_feasible:
  "try_again env True sol passes repairs = Inr r \<Longrightarrow>
     cr_feasible r =
       (d_le (cr_bound_violation r) (Fin (mip_feasibility_tolerance (options_mip env)))
        \<and> d_le (cr_integrality_violation r) (Fin (mip_feasibility_tolerance (options_mip env)))
        \<and> d_le (cr_row_violation r) (Fin (mip_feasibility_tolerance (options_mip env))))"
  by (drule try_again_True) (auto dest!: violation_pass_feasible)

subsection \<open>No read past a vector when the lengths fit\<close>

lemma rd_in_range: "i < length xs \<Longrightarrow> rd xs i = Inr (xs ! i)"
  by (simp add: rd_def)

lemma viol_col_loop_total:
  "\<forall>i\<in>set is. i < length cv \<and> i < length (col_cost om) \<and> i < length (integrality om)
       \<and> i < length (col_lower om) \<and> i < length (col_upper om) \<Longrightarrow>
   \<not> isl (viol_col_loop om tol cv is acc)"
proof (induction "is" arbitrary: acc)
  case Nil
  show ?case by simp
next
  case (Cons i "is")
  obtain obj iv bv where acc: "acc = (obj, iv, bv)" by (metis prod_cases3)
  from Cons.prems have rest: "\<And>acc'. \<not> isl (viol_col_loop om tol cv is acc')"
    by (intro Cons.IH) simp
  from Cons.prems show ?case
    unfolding acc by (simp add: rd_in_range Let_def rest)
qed

lemma viol_row_loop_total:
  "\<forall>i\<in>set is. i < length rv \<and> i < length (row_lower om) \<and> i < length (row_upper om) \<Longrightarrow>
   \<not> isl (viol_row_loop om tol rv is acc)"
proof (induction "is" arbitrary: acc)
  case Nil
  show ?case by simp
next
  case (Cons i "is")
  from Cons.prems have rest: "\<And>acc'. \<not> isl (viol_row_loop om tol rv is acc')"
    by (intro Cons.IH) simp
  from Cons.prems show ?case
    by (simp add: rd_in_range rest)
qed

lemma not_isl_ebind: "\<not> isl m \<Longrightarrow> (\<And>v. \<not> isl (f v)) \<Longrightarrow> \<not> isl (ebind m f)"
  by (cases m) simp_all

lemma violation_pass_total:
  assumes "wf_lp (orig_model env)" and "wf_solution (orig_model env) solution"
  shows "\<not> isl (violation_pass env solution)"
proof -
  let ?om = "orig_model env"
  let ?tol = "mip_feasibility_tolerance (options_mip env)"
  let ?C = "viol_col_loop ?om ?tol (col_value solution) [0..<num_col ?om]
              (offset ?om, Fin 0, Fin 0)"
  let ?R = "viol_row_loop ?om ?tol (row_value solution) [0..<num_row ?om] (Fin 0)"
  have "\<not> isl ?C"
    using assms by (intro viol_col_loop_total) (simp add: wf_lp_def wf_solution_def)
  then obtain obj iv bv where c: "?C = Inr (obj, iv, bv)"
    by (cases ?C) auto
  have "\<not> isl ?R"
    using assms by (intro viol_row_loop_total) (simp add: wf_lp_def wf_solution_def)
  then obtain rv where r: "?R = Inr rv"
    by (cases ?R) auto
  show ?thesis
    by (simp add: violation_pass_def Let_def c r)
qed

lemma fix_integers_total:
  "\<forall>i\<in>set is. i < length (integrality om) \<and> i < length cv
       \<and> i < length (col_lower fm) \<and> i < length (col_upper fm) \<Longrightarrow>
   \<not> isl (fix_integers om cv is fm)"
proof (induction "is" arbitrary: fm)
  case Nil
  show ?case by simp
next
  case (Cons i "is")
  from Cons.prems have same: "\<not> isl (fix_integers om cv is fm)"
    by (intro Cons.IH) simp
  from Cons.prems have upd: "\<And>lo up. \<not> isl (fix_integers om cv is
          (fm\<lparr>col_lower := (col_lower fm)[i := lo], col_upper := (col_upper fm)[i := up]\<rparr>))"
    by (intro Cons.IH) simp
  from Cons.prems show ?case
    by (simp add: rd_in_range same upd)
qed

lemma fixedModel_of_total:
  assumes "wf_lp (orig_model env)" and "wf_solution (orig_model env) solution"
  shows "\<not> isl (fixedModel_of env solution)"
  unfolding fixedModel_of_def
  using assms by (intro fix_integers_total) (simp add: wf_lp_def wf_solution_def)

lemma try_again_total:
  assumes wf: "wf_lp (orig_model env)" and rep: "wf_repair env"
    and sol: "wf_solution (orig_model env) solution"
  shows "\<not> isl (try_again env allow solution passes repairs)"
proof -
  from violation_pass_total [OF wf sol] obtain r0 where v: "violation_pass env solution = Inr r0"
    by (cases "violation_pass env solution") auto
  from fixedModel_of_total [OF wf sol] obtain fm where fm: "fixedModel_of env solution = Inr fm"
    by (cases "fixedModel_of env solution") auto
  obtain pf cv rv where run: "tmpSolver_run env fm = (pf, cv, rv)"
    by (cases "tmpSolver_run env fm") auto
  show ?thesis
  proof (cases "\<not> cr_feasible r0 \<and> allow \<and> pf")
    case False
    then show ?thesis
      by (subst try_again.simps) (auto simp: v fm run)
  next
    case True
    with rep run have "wf_solution (orig_model env) \<lparr>col_value = cv, row_value = rv\<rparr>"
      by (auto simp: wf_repair_def split: prod.splits)
    from violation_pass_total [OF wf this] obtain r1
      where v1: "violation_pass env \<lparr>col_value = cv, row_value = rv\<rparr> = Inr r1"
      by (cases "violation_pass env \<lparr>col_value = cv, row_value = rv\<rparr>") auto
    have "\<not> isl (try_again env False \<lparr>col_value = cv, row_value = rv\<rparr>
                    (passes + 1) (repairs + 1))"
      by (subst try_again.simps) (simp add: v1)
    with True show ?thesis
      by (subst try_again.simps) (simp add: v fm run)
  qed
qed

lemma transform_total:
  assumes "wf_lp (orig_model env)" and "wf_repair env"
    and "wf_solution (orig_model env)
           \<lparr>col_value = undoPrimal env sol,
              row_value = calculateRowValuesQuad env (undoPrimal env sol)\<rparr>"
  shows "\<not> isl (transformNewIntegerFeasibleSolution env s sol flag)"
proof -
  from try_again_total [OF assms, of True 0 0] obtain r where
    "try_again env True
       \<lparr>col_value = undoPrimal env sol,
          row_value = calculateRowValuesQuad env (undoPrimal env sol)\<rparr> 0 0 = Inr r"
    by (cases "try_again env True
       \<lparr>col_value = undoPrimal env sol,
          row_value = calculateRowValuesQuad env (undoPrimal env sol)\<rparr> 0 0") auto
  then show ?thesis
    by (simp add: transformNewIntegerFeasibleSolution_def Let_def)
qed

subsection \<open>The outcomes of \<open>addIncumbent\<close>\<close>

lemma addIncumbent_cases:
  assumes "addIncumbent env x s sol solobj = Inr (accepted, s')"
  shows "(\<not> d_lt solobj (upper_bound s) \<and> accepted \<and> upper_bound s' = upper_bound s
            \<and> lower_bound s' = lower_bound s \<and> pruned_treeweight s' = pruned_treeweight s)
       \<or> (d_lt solobj (upper_bound s) \<and>
            (\<exists>t s1 r. transformNewIntegerFeasibleSolution env s sol True = Inr (t, s1, r)
               \<and> ((d_le (upper_bound s) t \<and> \<not> accepted \<and> s' = s1)
                  \<or> (\<not> d_le (upper_bound s) t \<and> accepted \<and> upper_bound s' = t
                      \<and> lower_bound s' = lower_bound s
                      \<and> (pruned_treeweight s' = 1
                          \<or> pruned_treeweight s' = pruned_treeweight s
                          \<or> pruned_treeweight s'
                               = pruned_treeweight s + performBounding_weight x)))))"
proof (cases "d_lt solobj (upper_bound s)")
  case False
  with assms show ?thesis
    by (auto simp: addIncumbent_def Let_def ebind_eq_Inr split: if_splits dest!: transform_bounds)
next
  case True
  with assms obtain t s1 r
    where tr: "transformNewIntegerFeasibleSolution env s sol True = Inr (t, s1, r)"
    by (auto simp: addIncumbent_def Let_def ebind_eq_Inr split: if_splits)
  note tb = transform_bounds [OF tr]
  from assms True tr tb show ?thesis
    by (auto simp: addIncumbent_def Let_def split: if_splits)
qed

lemma addIncumbent_rejected_bounds:
  "addIncumbent env x s sol solobj = Inr (False, s') \<Longrightarrow>
     upper_bound s' = upper_bound s \<and> lower_bound s' = lower_bound s
     \<and> pruned_treeweight s' = pruned_treeweight s"
  by (auto dest!: addIncumbent_cases dest: transform_bounds)

lemma addIncumbent_pruned:
  "addIncumbent env x s sol solobj = Inr (accepted, s') \<Longrightarrow>
     pruned_treeweight s' = 1 \<or> pruned_treeweight s' = pruned_treeweight s
     \<or> pruned_treeweight s' = pruned_treeweight s + performBounding_weight x"
  by (auto dest!: addIncumbent_cases dest: transform_bounds)

subsection \<open>The bound invariant\<close>

lemma bound_consistent_iff:
  "bound_consistent tol s \<longleftrightarrow>
     (\<forall>l u. lower_bound s = Fin l \<longrightarrow> upper_bound s = Fin u \<longrightarrow> l \<le> u + tol)"
  by (auto simp: bound_consistent_def split: double.splits)

lemma addIncumbent_consistent:
  assumes tol: "0 \<le> tol" and inv: "bound_consistent tol s"
    and a: "addIncumbent env x s sol solobj = Inr (accepted, s')"
    and sound: "\<And>t s1 r. transformNewIntegerFeasibleSolution env s sol True = Inr (t, s1, r)
                  \<Longrightarrow> d_le (lower_bound s) (d_add t (Fin tol))"
  shows "bound_consistent tol s'"
proof -
  from addIncumbent_cases [OF a]
  consider (same) "upper_bound s' = upper_bound s" "lower_bound s' = lower_bound s"
    | (new) t s1 r where "transformNewIntegerFeasibleSolution env s sol True = Inr (t, s1, r)"
        "upper_bound s' = t" "lower_bound s' = lower_bound s"
    by (auto dest: transform_bounds)
  then show ?thesis
  proof cases
    case same
    then show ?thesis using inv by (simp add: bound_consistent_iff)
  next
    case new
    from sound [OF new(1)] have "d_le (lower_bound s) (d_add t (Fin tol))" .
    then show ?thesis using new(2,3)
      by (cases "lower_bound s"; cases t) (simp_all add: bound_consistent_iff)
  qed
qed

lemma count_leaf_fields [simp]:
  "lower_bound (count_leaf s) = lower_bound s" "upper_bound (count_leaf s) = upper_bound s"
  "pruned_treeweight (count_leaf s) = 1" "modelstatus (count_leaf s) = modelstatus s"
  by (simp_all add: count_leaf_def)

lemma bound_phase_Inl:
  "rootlp_bound_phase e status s = Inl (st, s') \<Longrightarrow>
     upper_bound s' = upper_bound s
     \<and> (lower_bound s' = d_min kHighsInf (upper_bound s) \<or> lower_bound s' = lower_bound s
        \<or> (it_unscaledDualFeasible e
            \<and> lower_bound s' = d_max (it_lp_objective e) (lower_bound s)))
     \<and> (pruned_treeweight s' = 1 \<or> pruned_treeweight s' = pruned_treeweight s)"
  by (auto simp: rootlp_bound_phase_def Let_def split: if_splits)

lemma bound_phase_Inr:
  "rootlp_bound_phase e status s = Inr s' \<Longrightarrow>
     upper_bound s' = upper_bound s
     \<and> (lower_bound s' = lower_bound s
        \<or> (it_unscaledDualFeasible e
            \<and> lower_bound s' = d_max (it_lp_objective e) (lower_bound s)))
     \<and> pruned_treeweight s' = pruned_treeweight s"
  by (auto simp: rootlp_bound_phase_def Let_def split: if_splits)

lemma rootlp_iteration_Inl:
  assumes "rootlp_iteration env e s = Inr (Inl (st, s'))"
  shows "(lower_bound s' = d_min kHighsInf (upper_bound s') \<or> lower_bound s' = upper_bound s'
          \<or> (upper_bound s' = upper_bound s
              \<and> (lower_bound s' = lower_bound s
                  \<or> (it_unscaledDualFeasible e
                      \<and> lower_bound s' = d_max (it_lp_objective e) (lower_bound s)))))
       \<and> (pruned_treeweight s' = 1 \<or> pruned_treeweight s' = pruned_treeweight s)"
  using assms
  apply (simp add: rootlp_iteration_def Let_def split: if_splits)
     apply (auto simp: ebind_eq_Inr split: if_splits
         dest!: bound_phase_Inl addIncumbent_rejected_bounds)
  done

lemma rootlp_iteration_Inr:
  assumes "rootlp_iteration env e s = Inr (Inr s')"
  shows "upper_bound s' = upper_bound s
     \<and> (lower_bound s' = lower_bound s
        \<or> (it_unscaledDualFeasible e
            \<and> lower_bound s' = d_max (it_lp_objective e) (lower_bound s)))
     \<and> pruned_treeweight s' = pruned_treeweight s"
  using assms
  apply (simp add: rootlp_iteration_def Let_def split: if_splits)
     apply (auto simp: ebind_eq_Inr split: if_splits
         dest!: bound_phase_Inr addIncumbent_rejected_bounds)
  done

lemma consistent_step:
  assumes tol: "0 \<le> tol" and inv: "bound_consistent tol s"
    and sound: "it_unscaledDualFeasible e \<longrightarrow>
                  d_le (it_lp_objective e) (d_add (upper_bound s) (Fin tol))"
    and ub: "upper_bound s' = upper_bound s"
    and lb: "lower_bound s' = lower_bound s
             \<or> (it_unscaledDualFeasible e
                 \<and> lower_bound s' = d_max (it_lp_objective e) (lower_bound s))"
  shows "bound_consistent tol s'"
  using lb
proof
  assume "lower_bound s' = lower_bound s"
  then show ?thesis using inv ub by (simp add: bound_consistent_iff)
next
  assume a: "it_unscaledDualFeasible e
             \<and> lower_bound s' = d_max (it_lp_objective e) (lower_bound s)"
  with sound have "d_le (it_lp_objective e) (d_add (upper_bound s) (Fin tol))" by simp
  then show ?thesis using a inv ub
    by (cases "it_lp_objective e"; cases "lower_bound s"; cases "upper_bound s")
       (simp_all add: bound_consistent_iff d_max_def split: if_splits)
qed

lemma consistent_closed:
  assumes tol: "0 \<le> tol"
    and lb: "lower_bound s' = d_min kHighsInf (upper_bound s') \<or> lower_bound s' = upper_bound s'"
  shows "bound_consistent tol s'"
  using lb tol
  by (cases "upper_bound s'") (auto simp: bound_consistent_iff d_min_inf)

lemma evaluateRootLp_consistent:
  assumes tol: "0 \<le> tol"
  shows "bound_consistent tol s \<Longrightarrow>
     (\<forall>e\<in>set es. it_unscaledDualFeasible e \<longrightarrow>
          d_le (it_lp_objective e) (d_add (upper_bound s) (Fin tol))) \<Longrightarrow>
     evaluateRootLp env es s = Some (Inr (st, s')) \<Longrightarrow> bound_consistent tol s'"
proof (induction es arbitrary: s)
  case Nil
  then show ?case by simp
next
  case (Cons e es)
  from Cons.prems(2)
  have sound: "it_unscaledDualFeasible e \<longrightarrow>
                 d_le (it_lp_objective e) (d_add (upper_bound s) (Fin tol))"
    by simp
  show ?case
  proof (cases "rootlp_iteration env e s")
    case (Inl err)
    with Cons.prems(3) show ?thesis by simp
  next
    case (Inr res)
    show ?thesis
    proof (cases res)
      case (Inl ret)
      with Inr Cons.prems(3) have it: "rootlp_iteration env e s = Inr (Inl (st, s'))" by simp
      from rootlp_iteration_Inl [OF it]
      consider "lower_bound s' = d_min kHighsInf (upper_bound s')
                \<or> lower_bound s' = upper_bound s'"
        | "upper_bound s' = upper_bound s"
          "lower_bound s' = lower_bound s
             \<or> (it_unscaledDualFeasible e
                 \<and> lower_bound s' = d_max (it_lp_objective e) (lower_bound s))"
        by blast
      then show ?thesis
      proof cases
        case 1
        then show ?thesis by (rule consistent_closed [OF tol])
      next
        case 2
        then show ?thesis by (rule consistent_step [OF tol Cons.prems(1) sound])
      qed
    next
      case (Inr s1)
      with \<open>rootlp_iteration env e s = Inr res\<close>
      have it: "rootlp_iteration env e s = Inr (Inr s1)" by simp
      from rootlp_iteration_Inr [OF it]
      have ub: "upper_bound s1 = upper_bound s"
        and lb: "lower_bound s1 = lower_bound s
             \<or> (it_unscaledDualFeasible e
                 \<and> lower_bound s1 = d_max (it_lp_objective e) (lower_bound s))"
        by blast+
      have inv1: "bound_consistent tol s1"
        by (rule consistent_step [OF tol Cons.prems(1) sound ub lb])
      have rest: "evaluateRootLp env es s1 = Some (Inr (st, s'))"
        using Cons.prems(3) it by simp
      show ?thesis
        using Cons.IH [OF inv1 _ rest] Cons.prems(2) ub by simp
    qed
  qed
qed

subsection \<open>The pruned tree weight\<close>

lemma evaluateRootLp_pruned:
  "evaluateRootLp env es s = Some (Inr (st, s')) \<Longrightarrow>
     pruned_treeweight s' = 1 \<or> pruned_treeweight s' = pruned_treeweight s"
proof (induction es arbitrary: s)
  case Nil
  then show ?case by simp
next
  case (Cons e es)
  show ?case
  proof (cases "rootlp_iteration env e s")
    case (Inl err)
    with Cons.prems show ?thesis by simp
  next
    case (Inr res)
    show ?thesis
    proof (cases res)
      case (Inl ret)
      with Inr Cons.prems have "rootlp_iteration env e s = Inr (Inl (st, s'))" by simp
      from rootlp_iteration_Inl [OF this] show ?thesis by blast
    next
      case (Inr s1)
      with \<open>rootlp_iteration env e s = Inr res\<close>
      have it: "rootlp_iteration env e s = Inr (Inr s1)" by simp
      from rootlp_iteration_Inr [OF it]
      have "pruned_treeweight s1 = pruned_treeweight s" by blast
      moreover have "evaluateRootLp env es s1 = Some (Inr (st, s'))"
        using Cons.prems it by simp
      ultimately show ?thesis using Cons.IH [of s1] by simp
    qed
  qed
qed

lemma checkLimits_pruned:
  "pruned_treeweight (snd (checkLimits env x n s)) = pruned_treeweight s"
  by (simp add: checkLimits_def Let_def set_status_if_notset_def)

lemma runSetup_incumbent_pruned:
  "pruned_treeweight (runSetup_incumbent env x s) = pruned_treeweight s"
  by (simp add: runSetup_incumbent_def Let_def)

lemma runSetup_pruned:
  assumes "runSetup env x s = Inr s'"
  shows "pruned_treeweight s' = 1 \<or> pruned_treeweight s' = pruned_treeweight s
     \<or> pruned_treeweight s' = pruned_treeweight s + performBounding_weight (su_addinc x)"
proof -
  let ?s2 = "runSetup_incumbent env x s"
  from assms obtain s3 where
    s3: "(if num_col (model env) = 0
          then ebind (addIncumbent env (su_addinc x) ?s2 [] (Fin 0)) (\<lambda>(accepted, s'). Inr s')
          else Inr ?s2) = Inr s3"
    and rest: "(if su_propagate_infeasible x
       then Inr (s3\<lparr> modelstatus := kInfeasible, lower_bound := kHighsInf,
                     pruned_treeweight := 1 \<rparr>)
       else if num_col (model env) = 0 then Inr (s3\<lparr> modelstatus := kOptimal \<rparr>)
       else
         (case checkLimits env (su_checklimits x) 0 s3 of
            (stop, s4) \<Rightarrow>
              if stop then Inr s4
              else ebind (classify_cols (integrality (model env)) [0..<num_col (model env)])
                     (\<lambda>u. Inr s4))) = Inr s'"
    unfolding runSetup_def Let_def ebind_eq_Inr by blast
  from s3 have p3: "pruned_treeweight s3 = 1 \<or> pruned_treeweight s3 = pruned_treeweight s
     \<or> pruned_treeweight s3 = pruned_treeweight s + performBounding_weight (su_addinc x)"
    using addIncumbent_pruned [of env "su_addinc x" ?s2 "[]" "Fin 0"]
    by (auto simp: ebind_eq_Inr runSetup_incumbent_pruned split: if_splits)
  from rest have "pruned_treeweight s' = 1 \<or> pruned_treeweight s' = pruned_treeweight s3"
    using checkLimits_pruned [of env "su_checklimits x" 0 s3]
    by (auto simp: ebind_eq_Inr split: if_splits prod.splits)
  with p3 show ?thesis by auto
qed

lemma performRestart_pruned:
  assumes "performRestart env env' x s = Inr s'"
  shows "pruned_treeweight s' = 0 \<or> pruned_treeweight s' = 1
     \<or> pruned_treeweight s' = performBounding_weight (su_addinc (rs_setup x))"
proof (cases "rs_presolve_status x = kNotset")
  case True
  with assms show ?thesis
    by (auto simp: performRestart_def Let_def dest!: runSetup_pruned)
next
  case False
  with assms show ?thesis
    by (auto simp: performRestart_def Let_def ebind_eq_Inr split: if_splits
          dest!: transform_bounds)
qed

subsection \<open>The root loop after iterations that go round\<close>


subsection \<open>The limit check as a first hit\<close>

lemma reached_objective_target_unfold:
  "reached_objective_target env s =
    (case sense (orig_model env) of
       kMinimize \<Rightarrow>
         d_lt (d_mul (Fin 1) (solution_objective s))
              (d_mul (Fin 1) (objective_target (options_mip env)))
     | kMaximize \<Rightarrow>
         d_lt (d_mul (Fin (- 1)) (solution_objective s))
              (d_mul (Fin (- 1)) (objective_target (options_mip env))))"
  by (simp add: reached_objective_target_def split: ObjSense.splits)

lemma limit_chain:
  "(if c1 then (True, f kInterrupt)
    else if c2 then (True, f kObjectiveTarget)
    else if c3 then (True, f kSolutionLimit)
    else if c4 then (True, f kSolutionLimit)
    else if c5 then (True, f kSolutionLimit)
    else if c6 then (True, f kTimeLimit)
    else (False, s))
   = (case first_limit_hit [(c1, kInterrupt), (c2, kObjectiveTarget), (c3, kSolutionLimit),
                            (c4, kSolutionLimit), (c5, kSolutionLimit), (c6, kTimeLimit)] of
        None \<Rightarrow> (False, s)
      | Some st \<Rightarrow> (True, f st))"
  by simp

lemma interrupt_cond:
  "(\<not> submip env \<and> user_callback env \<and> interruptFromCallbackWithData x)
     = (\<not> submip env \<and> user_callback env \<and> callbackActive x \<and> callbackAction x)"
  by (simp add: interruptFromCallbackWithData_def)

lemma checkLimits_refines:
  "checkLimits env x nodeOffset s =
     (case first_limit_hit (limit_conditions env x nodeOffset s) of
        None \<Rightarrow> (False, s)
      | Some st \<Rightarrow> (True, if modelstatus s = kNotset then s\<lparr>modelstatus := st\<rparr> else s))"
  unfolding checkLimits_def limit_conditions_def Let_def interrupt_cond
    reached_objective_target_unfold kHighsInf_def kHighsIInf_def d_neg.simps
    set_status_if_notset_def
  by (rule limit_chain)

lemma limit_conditions_status:
  "limit_conditions env x nodeOffset (s\<lparr>modelstatus := st\<rparr>)
     = limit_conditions env x nodeOffset s"
  by (simp add: limit_conditions_def cong: ObjSense.case_cong)

subsection \<open>The displayed bounds by cases\<close>

lemma snap_zero_Fin: "snap_zero eps (Fin v) = Fin (snap_real eps v)"
  by (simp add: snap_zero_def snap_real_def)

lemma limitsToBounds_finite:
  "upper_bound s = Fin u \<and> lower_bound s = Fin l \<longrightarrow>
      limitsToBounds env s =
        (let p = snap_real (epsilon env) (u + offset (model env));
             d = min (snap_real (epsilon env) (l + offset (model env))) p;
             primal = d_min (objective_bound (options_mip env)) (Fin p)
         in if sense (orig_model env) = kMaximize
            then (Fin (- d), d_neg primal, display_gap p d)
            else (Fin d, primal, display_gap p d))"
  by (auto simp: limitsToBounds_def Let_def snap_zero_Fin d_eq_def kHighsInf_def d_min_def
        d_sub_def display_gap_def min_def)

lemma snap_zero_special:
  "snap_zero eps MInf = MInf" "snap_zero eps PInf = PInf" "snap_zero eps NaN = NaN"
  by (simp_all add: snap_zero_def)

lemma limitsToBounds_finite_upper:
  "upper_bound s = Fin u \<Longrightarrow>
     limitsToBounds env s =
       (let p = snap_real (epsilon env) (u + offset (model env));
            dual = d_min (snap_zero (epsilon env) (d_add (lower_bound s) (Fin (offset (model env)))))
                     (Fin p);
            gap = (if p = 0 then (if dual = Fin 0 then Fin 0 else PInf)
                   else d_div (d_mul (Fin 100) (d_sub (Fin p) dual)) (Fin \<bar>p\<bar>));
            primal = d_min (objective_bound (options_mip env)) (Fin p)
        in if sense (orig_model env) = kMaximize
           then (d_neg dual, d_neg primal, gap)
           else (dual, primal, gap))"
  by (simp add: limitsToBounds_def Let_def snap_zero_Fin d_eq_def kHighsInf_def)

lemma limitsToBounds_lower_minf:
  "upper_bound s = Fin u \<and> lower_bound s = MInf \<longrightarrow>
     limitsToBounds env s =
       (let p = snap_real (epsilon env) (u + offset (model env));
            primal = d_min (objective_bound (options_mip env)) (Fin p)
        in if sense (orig_model env) = kMaximize
           then (PInf, d_neg primal, PInf)
           else (MInf, primal, PInf))"
proof
  assume a: "upper_bound s = Fin u \<and> lower_bound s = MInf"
  then have u: "upper_bound s = Fin u" and l: "lower_bound s = MInf" by simp_all
  show "limitsToBounds env s =
       (let p = snap_real (epsilon env) (u + offset (model env));
            primal = d_min (objective_bound (options_mip env)) (Fin p)
        in if sense (orig_model env) = kMaximize
           then (PInf, d_neg primal, PInf)
           else (MInf, primal, PInf))"
    unfolding limitsToBounds_finite_upper [OF u] l
    by (simp add: Let_def snap_zero_special d_min_def d_sub_def inf_signed_def)
qed

lemma limitsToBounds_lower_pinf:
  "upper_bound s = Fin u \<and> lower_bound s = PInf \<longrightarrow>
     limitsToBounds env s =
       (let p = snap_real (epsilon env) (u + offset (model env));
            primal = d_min (objective_bound (options_mip env)) (Fin p)
        in if sense (orig_model env) = kMaximize
           then (Fin (- p), d_neg primal, Fin 0)
           else (Fin p, primal, Fin 0))"
proof
  assume a: "upper_bound s = Fin u \<and> lower_bound s = PInf"
  then have u: "upper_bound s = Fin u" and l: "lower_bound s = PInf" by simp_all
  show "limitsToBounds env s =
       (let p = snap_real (epsilon env) (u + offset (model env));
            primal = d_min (objective_bound (options_mip env)) (Fin p)
        in if sense (orig_model env) = kMaximize
           then (Fin (- p), d_neg primal, Fin 0)
           else (Fin p, primal, Fin 0))"
    unfolding limitsToBounds_finite_upper [OF u] l
    by (simp add: Let_def snap_zero_special d_min_def d_sub_def inf_signed_def)
qed

lemma limitsToBounds_lower_nan:
  "upper_bound s = Fin u \<and> lower_bound s = NaN \<longrightarrow>
     limitsToBounds env s =
       (let p = snap_real (epsilon env) (u + offset (model env));
            primal = d_min (objective_bound (options_mip env)) (Fin p)
        in if sense (orig_model env) = kMaximize
           then (NaN, d_neg primal, if p = 0 then PInf else NaN)
           else (NaN, primal, if p = 0 then PInf else NaN))"
proof
  assume a: "upper_bound s = Fin u \<and> lower_bound s = NaN"
  then have u: "upper_bound s = Fin u" and l: "lower_bound s = NaN" by simp_all
  show "limitsToBounds env s =
       (let p = snap_real (epsilon env) (u + offset (model env));
            primal = d_min (objective_bound (options_mip env)) (Fin p)
        in if sense (orig_model env) = kMaximize
           then (NaN, d_neg primal, if p = 0 then PInf else NaN)
           else (NaN, primal, if p = 0 then PInf else NaN))"
    unfolding limitsToBounds_finite_upper [OF u] l
    by (simp add: Let_def snap_zero_special d_min_def d_sub_def inf_signed_def)
qed

lemma limitsToBounds_upper_inf:
  "upper_bound s = PInf \<longrightarrow>
     limitsToBounds env s =
       (let dual = snap_zero (epsilon env) (d_add (lower_bound s) (Fin (offset (model env))));
            primal = d_min (objective_bound (options_mip env)) PInf
        in if sense (orig_model env) = kMaximize
           then (d_neg dual, d_neg primal, PInf)
           else (dual, primal, PInf))"
  by (simp add: limitsToBounds_def Let_def d_eq_def kHighsInf_def)

section \<open>Properties of the solve state\<close>

subsection \<open>Consistency of the bounds\<close>

text \<open>
  C1. Neither operation compares the two bounds with each other: \<^verbatim>\<open>addIncumbent\<close>
  lowers \<open>upper_bound\<close> to the transformed objective of a strictly improving candidate
  and leaves \<open>lower_bound\<close> alone, and \<^verbatim>\<open>evaluateRootLp\<close> raises \<open>lower_bound\<close> to the
  objective of a dual-feasible LP and then tests it against \<open>optimality_limit\<close> only. So
  the invariant \<open>lower_bound \<le> upper_bound + tol\<close> (for finite bounds, \<open>tol \<ge> 0\<close>) is
  kept under a condition on what the collaborators deliver. A call of \<^verbatim>\<open>addIncumbent\<close>
  keeps it when the transformed objective of the candidate is at least
  \<open>lower_bound - tol\<close>; a call of \<^verbatim>\<open>evaluateRootLp\<close> keeps it when every dual-feasible
  LP objective it meets is at most \<open>upper_bound + tol\<close>. On the paths of
  \<^verbatim>\<open>evaluateRootLp\<close> that end with an infeasible domain or LP, or with an accepted
  integral LP solution, \<open>lower_bound\<close> is set to \<open>upper_bound\<close>. Since each call keeps
  the invariant under its condition, so does every sequence of calls.
\<close>

theorem bound_consistency_preserved:
  assumes "0 \<le> tol" and "bound_consistent tol s"
  shows "(\<forall>accepted s'. addIncumbent env x s sol solobj = Inr (accepted, s')
            \<and> (\<forall>t s1 r. transformNewIntegerFeasibleSolution env s sol True = Inr (t, s1, r)
                   \<longrightarrow> d_le (lower_bound s) (d_add t (Fin tol)))
            \<longrightarrow> bound_consistent tol s')
       \<and> (\<forall>st s'. evaluateRootLp env es s = Some (Inr (st, s'))
            \<and> (\<forall>e\<in>set es. it_unscaledDualFeasible e \<longrightarrow>
                   d_le (it_lp_objective e) (d_add (upper_bound s) (Fin tol)))
            \<longrightarrow> bound_consistent tol s')"
  using assms addIncumbent_consistent [of tol s env x sol solobj]
    evaluateRootLp_consistent [of tol s es env]
  by blast

theorem bound_consistency_preserved_witness:
  "0 \<le> feastol ex_env
   \<and> bound_consistent (feastol ex_env) ex_state_1_10
   \<and> addIncumbent ex_env ex_addinc ex_state_1_10 [3] (Fin 3) = Inr (True, ex_state_1_3)
   \<and> fst (projr (transformNewIntegerFeasibleSolution ex_env ex_state_1_10 [3] True)) = Fin 3
   \<and> d_le (lower_bound ex_state_1_10) (d_add (Fin 3) (Fin (feastol ex_env)))
   \<and> bound_consistent (feastol ex_env) ex_state_1_3
   \<and> evaluateRootLp ex_env [ex_iter] ex_state_1_10
       = Some (Inr (LpOptimal, ex_state_1_10\<lparr>lower_bound := Fin 2, total_lp_iterations := 7\<rparr>))
   \<and> it_unscaledDualFeasible ex_iter
   \<and> d_le (it_lp_objective ex_iter) (d_add (upper_bound ex_state_1_10) (Fin (feastol ex_env)))
   \<and> bound_consistent (feastol ex_env)
       (ex_state_1_10\<lparr>lower_bound := Fin 2, total_lp_iterations := 7\<rparr>)"
proof -
  have h0: "0 \<le> feastol ex_env" by code_simp
  have inv: "bound_consistent (feastol ex_env) ex_state_1_10" by code_simp
  have a: "addIncumbent ex_env ex_addinc ex_state_1_10 [3] (Fin 3) = Inr (True, ex_state_1_3)"
    by code_simp
  have t: "\<not> isl (transformNewIntegerFeasibleSolution ex_env ex_state_1_10 [3] True)
           \<and> fst (projr (transformNewIntegerFeasibleSolution ex_env ex_state_1_10 [3] True)) = Fin 3"
    by code_simp
  have le: "d_le (lower_bound ex_state_1_10) (d_add (Fin 3) (Fin (feastol ex_env)))"
    by code_simp
  have cand: "\<forall>t s1 r. transformNewIntegerFeasibleSolution ex_env ex_state_1_10 [3] True
                         = Inr (t, s1, r)
                \<longrightarrow> d_le (lower_bound ex_state_1_10) (d_add t (Fin (feastol ex_env)))"
    using t le by auto
  have e: "evaluateRootLp ex_env [ex_iter] ex_state_1_10
       = Some (Inr (LpOptimal, ex_state_1_10\<lparr>lower_bound := Fin 2, total_lp_iterations := 7\<rparr>))"
    by code_simp
  have df: "it_unscaledDualFeasible ex_iter" by code_simp
  have lp: "d_le (it_lp_objective ex_iter)
              (d_add (upper_bound ex_state_1_10) (Fin (feastol ex_env)))"
    by code_simp
  have all: "\<forall>e\<in>set [ex_iter]. it_unscaledDualFeasible e \<longrightarrow>
               d_le (it_lp_objective e) (d_add (upper_bound ex_state_1_10) (Fin (feastol ex_env)))"
    using lp by simp
  from bound_consistency_preserved [OF h0 inv, of ex_env ex_addinc "[3]" "Fin 3" "[ex_iter]"]
    a cand e all
  have "bound_consistent (feastol ex_env) ex_state_1_3
        \<and> bound_consistent (feastol ex_env)
            (ex_state_1_10\<lparr>lower_bound := Fin 2, total_lp_iterations := 7\<rparr>)"
    by blast
  with h0 inv a t le e df lp show ?thesis by simp
qed

text \<open>
  The invariant as the specification states it, with no condition, fails: from lower
  bound 1 and upper bound 3 (optimality limit 2.000001), a root LP that is resolved to a
  dual-feasible fractional optimum with objective 5 raises the lower bound to 5; the
  call returns because the lower bound exceeds the optimality limit, and leaves lower
  bound 5 above upper bound 3.
\<close>

theorem bound_consistency_counterexample:
  "bound_consistent (feastol ex_env) ex_state_1_3
   \<and> evaluateRootLp ex_env [ex_iter_obj5] ex_state_1_3
       = Some (Inr (LpInfeasible,
                    ex_state_5_3\<lparr>total_lp_iterations := 7, pruned_treeweight := 1,
                                  num_nodes := 1, num_leaves := 1\<rparr>))
   \<and> lower_bound ex_state_5_3 = Fin 5 \<and> upper_bound ex_state_5_3 = Fin 3
   \<and> \<not> bound_consistent (feastol ex_env)
          (ex_state_5_3\<lparr>total_lp_iterations := 7, pruned_treeweight := 1,
                        num_nodes := 1, num_leaves := 1\<rparr>)"
  by code_simp

subsection \<open>The incumbent bound never rises\<close>

text \<open>
  C2. After any call of \<^verbatim>\<open>addIncumbent\<close> that returns (so in particular after one
  that returns true and stores the candidate as the bounding incumbent),
  \<open>upper_bound\<close> is its value before the call or strictly below it; so it is at most
  its value before the call.
\<close>

theorem addIncumbent_upper_bound_nonincreasing:
  "addIncumbent env x s sol solobj = Inr (accepted, s') \<Longrightarrow>
     (upper_bound s' = upper_bound s \<or> d_lt (upper_bound s') (upper_bound s))
     \<and> (upper_bound s \<noteq> NaN \<longrightarrow> d_le (upper_bound s') (upper_bound s))"
proof -
  assume a: "addIncumbent env x s sol solobj = Inr (accepted, s')"
  from addIncumbent_cases [OF a]
  have "upper_bound s' = upper_bound s \<or> d_lt (upper_bound s') (upper_bound s)"
    by (auto dest: transform_bounds transform_value d_lt_of_not_le)
  then show ?thesis using d_le_refl d_lt_imp_d_le by auto
qed

theorem addIncumbent_upper_bound_nonincreasing_witness:
  "addIncumbent ex_env ex_addinc ex_state_1_10 [3] (Fin 3) = Inr (True, ex_state_1_3)
   \<and> upper_bound ex_state_1_10 = Fin 10 \<and> upper_bound ex_state_1_3 = Fin 3
   \<and> d_lt (upper_bound ex_state_1_3) (upper_bound ex_state_1_10)
   \<and> d_le (upper_bound ex_state_1_3) (upper_bound ex_state_1_10)"
proof -
  have a: "addIncumbent ex_env ex_addinc ex_state_1_10 [3] (Fin 3) = Inr (True, ex_state_1_3)"
    by code_simp
  have u: "upper_bound ex_state_1_10 = Fin 10 \<and> upper_bound ex_state_1_3 = Fin 3"
    by code_simp
  from addIncumbent_upper_bound_nonincreasing [OF a] a u show ?thesis by auto
qed

subsection \<open>The cutoff with zero gaps\<close>




subsection \<open>Candidates that stay infeasible\<close>

text \<open>
  C4. Let a candidate still violate the feasibility tolerance (in its bounds, its
  integrality or its rows) after the check and its one repair attempt. When
  \<^verbatim>\<open>transformNewIntegerFeasibleSolution\<close> is called to possibly store the candidate
  (\<^verbatim>\<open>possibly_store_as_new_incumbent\<close> true), it returns \<open>+infinity\<close>, and it stores
  the candidate with its violations and objective exactly when no feasible incumbent
  exists. When it is called without that flag, it stores nothing and returns the
  transformed objective of the candidate.
\<close>

theorem infeasible_candidate_storage:
  assumes "transformNewIntegerFeasibleSolution env s sol flag = Inr (ret, s', r)"
    and "\<not> (d_le (cr_bound_violation r) (Fin (mip_feasibility_tolerance (options_mip env)))
        \<and> d_le (cr_integrality_violation r) (Fin (mip_feasibility_tolerance (options_mip env)))
        \<and> d_le (cr_row_violation r) (Fin (mip_feasibility_tolerance (options_mip env))))"
  shows "(flag \<longrightarrow> ret = kHighsInf
            \<and> s' = (if currentFeasible env s then s else store_solution r s))
       \<and> (\<not> flag \<longrightarrow> ret = transformed_objective env (cr_objective r) \<and> s' = s)"
proof -
  note t = transform_try_again [OF assms(1)]
  from try_again_feasible [OF t] assms(2) have nf: "\<not> cr_feasible r" by simp
  from assms(1) t nf show ?thesis
    by (auto simp: transformNewIntegerFeasibleSolution_def Let_def split: if_splits)
qed

theorem infeasible_candidate_storage_witness:
  "\<not> isl (transformNewIntegerFeasibleSolution ex_env ex_state [20] True)
   \<and> cr_bound_violation
       (snd (snd (projr (transformNewIntegerFeasibleSolution ex_env ex_state [20] True))))
       = Fin 10
   \<and> \<not> d_le (Fin 10) (Fin (mip_feasibility_tolerance (options_mip ex_env)))
   \<and> \<not> currentFeasible ex_env ex_state
   \<and> fst (projr (transformNewIntegerFeasibleSolution ex_env ex_state [20] True)) = kHighsInf
   \<and> fst (snd (projr (transformNewIntegerFeasibleSolution ex_env ex_state [20] True)))
       = store_solution
           (snd (snd (projr (transformNewIntegerFeasibleSolution ex_env ex_state [20] True))))
           ex_state
   \<and> mipsolver_solution
       (fst (snd (projr (transformNewIntegerFeasibleSolution ex_env ex_state [20] True))))
       = [20]"
proof -
  let ?X = "transformNewIntegerFeasibleSolution ex_env ex_state [20] True"
  have isr: "\<not> isl ?X" by code_simp
  have bv: "cr_bound_violation (snd (snd (projr ?X))) = Fin 10" by code_simp
  have nle: "\<not> d_le (Fin 10) (Fin (mip_feasibility_tolerance (options_mip ex_env)))"
    by code_simp
  have ncf: "\<not> currentFeasible ex_env ex_state" by code_simp
  have sol: "mipsolver_solution (fst (snd (projr ?X))) = [20]" by code_simp
  have eq: "?X = Inr (fst (projr ?X), fst (snd (projr ?X)), snd (snd (projr ?X)))"
    using Inr_projr [OF isr] by simp
  from infeasible_candidate_storage [OF eq] bv nle ncf isr sol
  show ?thesis by simp
qed

text \<open>
  The value returned for an infeasible candidate is not always \<open>+infinity\<close>: called
  without the flag (as \<^verbatim>\<open>addIncumbent\<close> does for a candidate that does not improve,
  when the MIP-solution callback is active), the candidate 20 for a column with upper
  bound 10 comes back with its objective 20, and nothing is stored.
\<close>

theorem infeasible_candidate_return_counterexample:
  "\<not> isl (transformNewIntegerFeasibleSolution ex_env ex_state [20] False)
   \<and> cr_feasible
       (snd (snd (projr (transformNewIntegerFeasibleSolution ex_env ex_state [20] False))))
       = False
   \<and> cr_bound_violation
       (snd (snd (projr (transformNewIntegerFeasibleSolution ex_env ex_state [20] False))))
       = Fin 10
   \<and> fst (projr (transformNewIntegerFeasibleSolution ex_env ex_state [20] False)) = Fin 20
   \<and> Fin 20 \<noteq> kHighsInf
   \<and> fst (snd (projr (transformNewIntegerFeasibleSolution ex_env ex_state [20] False)))
       = ex_state"
  by code_simp

subsection \<open>An unbounded root LP\<close>




subsection \<open>The limit check\<close>

text \<open>
  C6. \<^verbatim>\<open>checkLimits\<close> looks at the stop conditions in the order user interrupt,
  objective target (by the sense of the original objective), node count, leaf count,
  improving-solution count, time. It returns true exactly when one of them holds, and
  then writes the status of the first that holds, but only into a status that is still
  undetermined. So a status once set is never changed by any later call, whatever that
  call observes. A later call returns true exactly when one of the conditions holds at
  that call; in particular a second call under the conditions of a call that returned
  true (the same observations and node offset) returns true again and changes nothing.
\<close>

theorem checkLimits_first_limit:
  "checkLimits env x nodeOffset s =
     (case first_limit_hit (limit_conditions env x nodeOffset s) of
        None \<Rightarrow> (False, s)
      | Some st \<Rightarrow> (True, if modelstatus s = kNotset then s\<lparr>modelstatus := st\<rparr> else s))
   \<and> (modelstatus s \<noteq> kNotset \<longrightarrow> snd (checkLimits env x' nodeOffset' s) = s)
   \<and> (fst (checkLimits env x nodeOffset s) \<longrightarrow>
        checkLimits env x nodeOffset (snd (checkLimits env x nodeOffset s))
          = (True, snd (checkLimits env x nodeOffset s)))"
proof (intro conjI impI)
  show "checkLimits env x nodeOffset s =
     (case first_limit_hit (limit_conditions env x nodeOffset s) of
        None \<Rightarrow> (False, s)
      | Some st \<Rightarrow> (True, if modelstatus s = kNotset then s\<lparr>modelstatus := st\<rparr> else s))"
    by (rule checkLimits_refines)
next
  assume "modelstatus s \<noteq> kNotset"
  then show "snd (checkLimits env x' nodeOffset' s) = s"
    by (simp add: checkLimits_refines split: option.splits)
next
  assume a: "fst (checkLimits env x nodeOffset s)"
  then obtain st where st: "first_limit_hit (limit_conditions env x nodeOffset s) = Some st"
    by (auto simp: checkLimits_refines split: option.splits)
  show "checkLimits env x nodeOffset (snd (checkLimits env x nodeOffset s))
          = (True, snd (checkLimits env x nodeOffset s))"
    by (simp add: checkLimits_refines [of env x nodeOffset s] st)
       (simp add: checkLimits_refines limit_conditions_status st)
qed

theorem checkLimits_first_limit_witness:
  "first_limit_hit (limit_conditions ex_env_nodes ex_checklimits 0 ex_state_nodes)
     = Some kSolutionLimit
   \<and> checkLimits ex_env_nodes ex_checklimits 0 ex_state_nodes
       = (True, ex_state_nodes\<lparr>modelstatus := kSolutionLimit\<rparr>)
   \<and> fst (checkLimits ex_env_nodes ex_checklimits 0 ex_state_nodes)
   \<and> checkLimits ex_env_nodes ex_checklimits 0
         (snd (checkLimits ex_env_nodes ex_checklimits 0 ex_state_nodes))
       = (True, snd (checkLimits ex_env_nodes ex_checklimits 0 ex_state_nodes))
   \<and> modelstatus (ex_state_nodes\<lparr>modelstatus := kInterrupt\<rparr>) \<noteq> kNotset
   \<and> snd (checkLimits ex_env_nodes ex_checklimits 0 (ex_state_nodes\<lparr>modelstatus := kInterrupt\<rparr>))
       = ex_state_nodes\<lparr>modelstatus := kInterrupt\<rparr>"
proof -
  have h: "first_limit_hit (limit_conditions ex_env_nodes ex_checklimits 0 ex_state_nodes)
             = Some kSolutionLimit"
    by code_simp
  have n: "modelstatus ex_state_nodes = kNotset" by code_simp
  have i: "modelstatus (ex_state_nodes\<lparr>modelstatus := kInterrupt\<rparr>) \<noteq> kNotset" by simp
  note first = checkLimits_first_limit [of ex_env_nodes ex_checklimits 0 ex_state_nodes]
  note later = checkLimits_first_limit [of ex_env_nodes ex_checklimits 0
      "ex_state_nodes\<lparr>modelstatus := kInterrupt\<rparr>" ex_checklimits 0]
  have c1: "checkLimits ex_env_nodes ex_checklimits 0 ex_state_nodes
              = (True, ex_state_nodes\<lparr>modelstatus := kSolutionLimit\<rparr>)"
    using first h n by simp
  have c2: "fst (checkLimits ex_env_nodes ex_checklimits 0 ex_state_nodes)"
    by (simp add: c1)
  have c3: "checkLimits ex_env_nodes ex_checklimits 0
         (snd (checkLimits ex_env_nodes ex_checklimits 0 ex_state_nodes))
       = (True, snd (checkLimits ex_env_nodes ex_checklimits 0 ex_state_nodes))"
    using first c2 by blast
  have c4: "snd (checkLimits ex_env_nodes ex_checklimits 0
                   (ex_state_nodes\<lparr>modelstatus := kInterrupt\<rparr>))
              = ex_state_nodes\<lparr>modelstatus := kInterrupt\<rparr>"
    using later i by blast
  show ?thesis
    by (intro conjI) (rule h c1 c2 c3 i c4)+
qed

text \<open>
  A call after a limit was hit does not always return true. With a node limit of 10 and
  7 nodes explored, the call with node offset 3 returns true and sets the status; the
  next call, with node offset 0, returns false. And after the user's callback has
  interrupted, a call in which the callback is not active returns false. The status
  stays as it was set.
\<close>

theorem checkLimits_later_call_counterexample:
  "checkLimits ex_env_nodes10 ex_checklimits 3 ex_state_nodes
     = (True, ex_state_nodes\<lparr>modelstatus := kSolutionLimit\<rparr>)
   \<and> checkLimits ex_env_nodes10 ex_checklimits 0 (ex_state_nodes\<lparr>modelstatus := kSolutionLimit\<rparr>)
       = (False, ex_state_nodes\<lparr>modelstatus := kSolutionLimit\<rparr>)
   \<and> checkLimits ex_env_callback ex_checklimits_interrupt 0 ex_state
       = (True, ex_state\<lparr>modelstatus := kInterrupt\<rparr>)
   \<and> checkLimits ex_env_callback ex_checklimits 0 (ex_state\<lparr>modelstatus := kInterrupt\<rparr>)
       = (False, ex_state\<lparr>modelstatus := kInterrupt\<rparr>)"
  by code_simp

subsection \<open>The pruned tree weight\<close>

text \<open>
  C7. Let \<open>pruned_treeweight\<close> lie in \<open>[0,1]\<close>. A call of \<^verbatim>\<open>addIncumbent\<close> leaves it
  in \<open>[0,1]\<close> and does not lower it, provided the weight the node queue reports as
  pruned by the bounding step is not negative and does not take the sum above 1. A call
  of \<^verbatim>\<open>evaluateRootLp\<close> leaves it as it is or sets it to 1. A restart is not monotone:
  \<^verbatim>\<open>performRestart\<close> sets it back to 0 for the new tree (and a model found infeasible
  or without columns while setting up again may then set it to 1 or add the weight of
  one bounding step); it stays in \<open>[0,1]\<close> when that weight does.
\<close>

theorem pruned_treeweight_range:
  assumes "0 \<le> pruned_treeweight s" and "pruned_treeweight s \<le> 1"
  shows "(\<forall>accepted s'. addIncumbent env x s sol solobj = Inr (accepted, s')
            \<and> 0 \<le> performBounding_weight x
            \<and> pruned_treeweight s + performBounding_weight x \<le> 1
            \<longrightarrow> pruned_treeweight s \<le> pruned_treeweight s' \<and> pruned_treeweight s' \<le> 1)
       \<and> (\<forall>st s'. evaluateRootLp env es s = Some (Inr (st, s'))
            \<longrightarrow> pruned_treeweight s \<le> pruned_treeweight s' \<and> pruned_treeweight s' \<le> 1)
       \<and> (\<forall>s'. performRestart env env' xr s = Inr s'
            \<and> 0 \<le> performBounding_weight (su_addinc (rs_setup xr))
            \<and> performBounding_weight (su_addinc (rs_setup xr)) \<le> 1
            \<longrightarrow> 0 \<le> pruned_treeweight s' \<and> pruned_treeweight s' \<le> 1)"
proof (intro conjI allI impI)
  fix accepted s'
  assume a: "addIncumbent env x s sol solobj = Inr (accepted, s')
            \<and> 0 \<le> performBounding_weight x
            \<and> pruned_treeweight s + performBounding_weight x \<le> 1"
  with addIncumbent_pruned [of env x s sol solobj accepted s'] assms
  show "pruned_treeweight s \<le> pruned_treeweight s'" "pruned_treeweight s' \<le> 1" by auto
next
  fix st s'
  assume "evaluateRootLp env es s = Some (Inr (st, s'))"
  from evaluateRootLp_pruned [OF this] assms
  show "pruned_treeweight s \<le> pruned_treeweight s'" "pruned_treeweight s' \<le> 1" by auto
next
  fix s'
  assume a: "performRestart env env' xr s = Inr s'
            \<and> 0 \<le> performBounding_weight (su_addinc (rs_setup xr))
            \<and> performBounding_weight (su_addinc (rs_setup xr)) \<le> 1"
  with performRestart_pruned [of env env' xr s s']
  show "0 \<le> pruned_treeweight s'" "pruned_treeweight s' \<le> 1" by auto
qed

theorem pruned_treeweight_range_witness:
  "0 \<le> pruned_treeweight ex_state_half \<and> pruned_treeweight ex_state_half \<le> 1
   \<and> \<not> isl (addIncumbent ex_env ex_addinc_quarter ex_state_half [3] (Fin 3))
   \<and> 0 \<le> performBounding_weight ex_addinc_quarter
   \<and> pruned_treeweight ex_state_half + performBounding_weight ex_addinc_quarter \<le> 1
   \<and> pruned_treeweight
       (snd (projr (addIncumbent ex_env ex_addinc_quarter ex_state_half [3] (Fin 3)))) = 3 / 4
   \<and> evaluateRootLp ex_env [ex_iter] ex_state_half
       = Some (Inr (LpOptimal, ex_state_half\<lparr>lower_bound := Fin 2, total_lp_iterations := 7\<rparr>))
   \<and> pruned_treeweight (ex_state_half\<lparr>lower_bound := Fin 2, total_lp_iterations := 7\<rparr>) = 1 / 2
   \<and> \<not> isl (performRestart ex_env ex_env ex_restart ex_state_half)
   \<and> 0 \<le> performBounding_weight (su_addinc (rs_setup ex_restart))
   \<and> performBounding_weight (su_addinc (rs_setup ex_restart)) \<le> 1
   \<and> 0 \<le> pruned_treeweight (projr (performRestart ex_env ex_env ex_restart ex_state_half))
   \<and> pruned_treeweight (projr (performRestart ex_env ex_env ex_restart ex_state_half)) \<le> 1"
proof -
  let ?A = "addIncumbent ex_env ex_addinc_quarter ex_state_half [3] (Fin 3)"
  let ?R = "performRestart ex_env ex_env ex_restart ex_state_half"
  have r: "0 \<le> pruned_treeweight ex_state_half" "pruned_treeweight ex_state_half \<le> 1"
    by code_simp+
  have a: "\<not> isl ?A" by code_simp
  have w: "0 \<le> performBounding_weight ex_addinc_quarter
           \<and> pruned_treeweight ex_state_half + performBounding_weight ex_addinc_quarter \<le> 1"
    by code_simp
  have av: "pruned_treeweight (snd (projr ?A)) = 3 / 4" by code_simp
  have e: "evaluateRootLp ex_env [ex_iter] ex_state_half
       = Some (Inr (LpOptimal, ex_state_half\<lparr>lower_bound := Fin 2, total_lp_iterations := 7\<rparr>))"
    by code_simp
  have ev: "pruned_treeweight (ex_state_half\<lparr>lower_bound := Fin 2, total_lp_iterations := 7\<rparr>)
              = 1 / 2"
    by code_simp
  have p: "\<not> isl ?R" by code_simp
  have pw: "0 \<le> performBounding_weight (su_addinc (rs_setup ex_restart))
            \<and> performBounding_weight (su_addinc (rs_setup ex_restart)) \<le> 1"
    by code_simp
  have aeq: "?A = Inr (fst (projr ?A), snd (projr ?A))" using Inr_projr [OF a] by simp
  have peq: "?R = Inr (projr ?R)" by (rule Inr_projr [OF p])
  from pruned_treeweight_range [OF r, of ex_env ex_addinc_quarter "[3]" "Fin 3" "[ex_iter]"
      ex_env ex_restart] aeq w e peq pw
  have "0 \<le> pruned_treeweight (projr ?R) \<and> pruned_treeweight (projr ?R) \<le> 1"
    by blast
  with r a w av e ev p pw show ?thesis by simp
qed

text \<open>
  The weight is not monotone across a restart: with half of the tree pruned, a restart
  whose presolve leaves the model undetermined ends with the weight 0.
\<close>

theorem pruned_treeweight_restart_counterexample:
  "pruned_treeweight ex_state_half = 1 / 2
   \<and> \<not> isl (performRestart ex_env ex_env ex_restart ex_state_half)
   \<and> pruned_treeweight (projr (performRestart ex_env ex_env ex_restart ex_state_half)) = 0
   \<and> pruned_treeweight (projr (performRestart ex_env ex_env ex_restart ex_state_half))
       < pruned_treeweight ex_state_half"
  by code_simp

subsection \<open>One repair at most\<close>

text \<open>
  C8. Whenever \<^verbatim>\<open>transformNewIntegerFeasibleSolution\<close> returns, it has run the
  violation check once or twice and the repair solver at most once, and a second pass of
  the check happens only after the one run of the repair solver. It always returns: the
  jump back to \<^verbatim>\<open>try_again\<close> is taken only with the flag that the jump clears (the
  termination argument of \<open>try_again\<close>), and when the vectors of the original model, of
  the postsolved candidate and of the repair solver's solutions have the lengths of the
  model, no vector is read past its end.
\<close>

theorem repair_bounded:
  "(transformNewIntegerFeasibleSolution env s sol flag = Inr (ret, s', r) \<longrightarrow>
      1 \<le> cr_passes r \<and> cr_passes r \<le> 2 \<and> cr_repairs r \<le> 1
      \<and> (cr_passes r = 2 \<longrightarrow> cr_repairs r = 1))
   \<and> (wf_lp (orig_model env) \<and> wf_repair env
        \<and> wf_solution (orig_model env)
              \<lparr>col_value = undoPrimal env sol,
                 row_value = calculateRowValuesQuad env (undoPrimal env sol)\<rparr>
      \<longrightarrow> \<not> isl (transformNewIntegerFeasibleSolution env s sol flag))"
proof -
  have counts: "transformNewIntegerFeasibleSolution env s sol flag = Inr (ret, s', r) \<longrightarrow>
      1 \<le> cr_passes r \<and> cr_passes r \<le> 2 \<and> cr_repairs r \<le> 1
      \<and> (cr_passes r = 2 \<longrightarrow> cr_repairs r = 1)"
    by (auto dest!: transform_try_again try_again_True)
  have returns: "wf_lp (orig_model env) \<and> wf_repair env
        \<and> wf_solution (orig_model env)
              \<lparr>col_value = undoPrimal env sol,
                 row_value = calculateRowValuesQuad env (undoPrimal env sol)\<rparr>
      \<longrightarrow> \<not> isl (transformNewIntegerFeasibleSolution env s sol flag)"
    using transform_total [of env sol s flag] by blast
  from counts returns show ?thesis by (rule conjI)
qed

theorem repair_bounded_witness:
  "wf_lp (orig_model ex_env_repair) \<and> wf_repair ex_env_repair
   \<and> wf_solution (orig_model ex_env_repair)
         \<lparr>col_value = undoPrimal ex_env_repair [20],
            row_value = calculateRowValuesQuad ex_env_repair (undoPrimal ex_env_repair [20])\<rparr>
   \<and> \<not> isl (transformNewIntegerFeasibleSolution ex_env_repair ex_state [20] True)
   \<and> cr_passes
       (snd (snd (projr (transformNewIntegerFeasibleSolution ex_env_repair ex_state [20] True))))
       = 2
   \<and> cr_repairs
       (snd (snd (projr (transformNewIntegerFeasibleSolution ex_env_repair ex_state [20] True))))
       = 1
   \<and> cr_feasible
       (snd (snd (projr (transformNewIntegerFeasibleSolution ex_env_repair ex_state [20] True))))
   \<and> fst (projr (transformNewIntegerFeasibleSolution ex_env_repair ex_state [20] True)) = Fin 10"
proof -
  let ?X = "transformNewIntegerFeasibleSolution ex_env_repair ex_state [20] True"
  have wf: "wf_lp (orig_model ex_env_repair) \<and> wf_repair ex_env_repair
     \<and> wf_solution (orig_model ex_env_repair)
         \<lparr>col_value = undoPrimal ex_env_repair [20],
            row_value = calculateRowValuesQuad ex_env_repair (undoPrimal ex_env_repair [20])\<rparr>"
    by (simp add: wf_lp_def wf_repair_def wf_solution_def ex_env_repair_def ex_env_def ex_lp_def)
  note rb = repair_bounded [of ex_env_repair ex_state "[20]" True
      "fst (projr ?X)" "fst (snd (projr ?X))" "snd (snd (projr ?X))"]
  from rb wf have isr: "\<not> isl ?X" by blast
  have eq: "?X = Inr (fst (projr ?X), fst (snd (projr ?X)), snd (snd (projr ?X)))"
    using Inr_projr [OF isr] by simp
  from rb eq have le: "cr_repairs (snd (snd (projr ?X))) \<le> 1" by blast
  have p: "cr_passes (snd (snd (projr ?X))) = 2" by code_simp
  from rb eq p have q: "cr_repairs (snd (snd (projr ?X))) = 1" by blast
  have f: "cr_feasible (snd (snd (projr ?X)))" by code_simp
  have v: "fst (projr ?X) = Fin 10" by code_simp
  from wf isr p q f v show ?thesis by blast
qed

subsection \<open>The displayed gap\<close>

text \<open>
  C9. With a finite upper bound, \<^verbatim>\<open>limitsToBounds\<close> adds the offset to both bounds
  and snaps each to zero when it is within \<open>epsilon\<close> of zero; it then lowers the dual
  value to the primal value if it lies above it, and the gap is
  \<open>100 (primal - dual) / |primal|\<close> of these two values for a nonzero primal value, and
  for a zero primal value 0 if the dual value is zero and \<open>+infinity\<close> otherwise. So
  with a finite lower bound the gap is that of the two finite values; with the lower
  bound \<open>-infinity\<close> the dual value is \<open>-infinity\<close> and the gap \<open>+infinity\<close>; with
  the lower bound \<open>+infinity\<close> the dual value is the primal value and the gap 0; and
  with a NaN lower bound the dual value is NaN and the gap \<open>+infinity\<close> for a zero
  primal value and NaN otherwise. With the upper bound \<open>+infinity\<close> the primal value
  and the gap are \<open>+infinity\<close> and the dual value is the snapped lower bound with the
  offset. In every case the primal value reported is capped by the option
  \<^verbatim>\<open>objective_bound\<close>, and both reported bounds change sign for a maximisation
  problem; the gap does not.
\<close>

theorem limitsToBounds_gap:
  "(upper_bound s = Fin u \<and> lower_bound s = Fin l \<longrightarrow>
      limitsToBounds env s =
        (let p = snap_real (epsilon env) (u + offset (model env));
             d = min (snap_real (epsilon env) (l + offset (model env))) p;
             primal = d_min (objective_bound (options_mip env)) (Fin p)
         in if sense (orig_model env) = kMaximize
            then (Fin (- d), d_neg primal, display_gap p d)
            else (Fin d, primal, display_gap p d)))
   \<and> (upper_bound s = Fin u \<and> lower_bound s = MInf \<longrightarrow>
        limitsToBounds env s =
          (let p = snap_real (epsilon env) (u + offset (model env));
               primal = d_min (objective_bound (options_mip env)) (Fin p)
           in if sense (orig_model env) = kMaximize
              then (PInf, d_neg primal, PInf)
              else (MInf, primal, PInf)))
   \<and> (upper_bound s = Fin u \<and> lower_bound s = PInf \<longrightarrow>
        limitsToBounds env s =
          (let p = snap_real (epsilon env) (u + offset (model env));
               primal = d_min (objective_bound (options_mip env)) (Fin p)
           in if sense (orig_model env) = kMaximize
              then (Fin (- p), d_neg primal, Fin 0)
              else (Fin p, primal, Fin 0)))
   \<and> (upper_bound s = Fin u \<and> lower_bound s = NaN \<longrightarrow>
        limitsToBounds env s =
          (let p = snap_real (epsilon env) (u + offset (model env));
               primal = d_min (objective_bound (options_mip env)) (Fin p)
           in if sense (orig_model env) = kMaximize
              then (NaN, d_neg primal, if p = 0 then PInf else NaN)
              else (NaN, primal, if p = 0 then PInf else NaN)))
   \<and> (upper_bound s = PInf \<longrightarrow>
        limitsToBounds env s =
          (let dual = snap_zero (epsilon env) (d_add (lower_bound s) (Fin (offset (model env))));
               primal = d_min (objective_bound (options_mip env)) PInf
           in if sense (orig_model env) = kMaximize
              then (d_neg dual, d_neg primal, PInf)
              else (dual, primal, PInf)))"
  using limitsToBounds_finite [of s u l env] limitsToBounds_lower_minf [of s u env]
    limitsToBounds_lower_pinf [of s u env] limitsToBounds_lower_nan [of s u env]
    limitsToBounds_upper_inf [of s env]
  by blast

theorem limitsToBounds_gap_witness:
  "upper_bound ex_state_1_3 = Fin 3 \<and> lower_bound ex_state_1_3 = Fin 1
   \<and> limitsToBounds ex_env ex_state_1_3 = (Fin 1, Fin 3, Fin (200 / 3))
   \<and> display_gap 3 1 = Fin (200 / 3)
   \<and> upper_bound (ex_state_1_3\<lparr>lower_bound := MInf\<rparr>) = Fin 3
   \<and> lower_bound (ex_state_1_3\<lparr>lower_bound := MInf\<rparr>) = MInf
   \<and> limitsToBounds ex_env (ex_state_1_3\<lparr>lower_bound := MInf\<rparr>) = (MInf, Fin 3, PInf)
   \<and> upper_bound ex_state_inf_3 = Fin 3 \<and> lower_bound ex_state_inf_3 = PInf
   \<and> limitsToBounds ex_env ex_state_inf_3 = (Fin 3, Fin 3, Fin 0)
   \<and> upper_bound (ex_state_1_3\<lparr>lower_bound := NaN\<rparr>) = Fin 3
   \<and> lower_bound (ex_state_1_3\<lparr>lower_bound := NaN\<rparr>) = NaN
   \<and> limitsToBounds ex_env (ex_state_1_3\<lparr>lower_bound := NaN\<rparr>) = (NaN, Fin 3, NaN)
   \<and> upper_bound ex_state = PInf
   \<and> limitsToBounds ex_env ex_state = (MInf, PInf, PInf)"
proof -
  have b: "upper_bound ex_state_1_3 = Fin 3 \<and> lower_bound ex_state_1_3 = Fin 1" by code_simp
  have bm: "upper_bound (ex_state_1_3\<lparr>lower_bound := MInf\<rparr>) = Fin 3
            \<and> lower_bound (ex_state_1_3\<lparr>lower_bound := MInf\<rparr>) = MInf"
    by code_simp
  have bp: "upper_bound ex_state_inf_3 = Fin 3 \<and> lower_bound ex_state_inf_3 = PInf"
    by code_simp
  have bn: "upper_bound (ex_state_1_3\<lparr>lower_bound := NaN\<rparr>) = Fin 3
            \<and> lower_bound (ex_state_1_3\<lparr>lower_bound := NaN\<rparr>) = NaN"
    by code_simp
  have i: "upper_bound ex_state = PInf" by code_simp
  have g: "display_gap 3 1 = Fin (200 / 3)" by code_simp
  have p: "snap_real (epsilon ex_env) (3 + offset (model ex_env)) = 3
           \<and> snap_real (epsilon ex_env) (1 + offset (model ex_env)) = 1
           \<and> objective_bound (options_mip ex_env) = PInf
           \<and> sense (orig_model ex_env) = kMinimize
           \<and> snap_zero (epsilon ex_env) (d_add (lower_bound ex_state) (Fin (offset (model ex_env))))
               = MInf"
    by code_simp
  have m: "d_min PInf (Fin 3) = Fin 3 \<and> d_min PInf PInf = PInf" by code_simp
  have v1: "limitsToBounds ex_env ex_state_1_3 = (Fin 1, Fin 3, Fin (200 / 3))"
    using limitsToBounds_gap [of ex_state_1_3 3 1 ex_env] b p m g by simp
  have v2: "limitsToBounds ex_env (ex_state_1_3\<lparr>lower_bound := MInf\<rparr>) = (MInf, Fin 3, PInf)"
    using limitsToBounds_gap [of "ex_state_1_3\<lparr>lower_bound := MInf\<rparr>" 3 0 ex_env] bm p m
    by simp
  have v3: "limitsToBounds ex_env ex_state_inf_3 = (Fin 3, Fin 3, Fin 0)"
    using limitsToBounds_gap [of ex_state_inf_3 3 0 ex_env] bp p m by simp
  have v4: "limitsToBounds ex_env (ex_state_1_3\<lparr>lower_bound := NaN\<rparr>) = (NaN, Fin 3, NaN)"
    using limitsToBounds_gap [of "ex_state_1_3\<lparr>lower_bound := NaN\<rparr>" 3 0 ex_env] bn p m
    by simp
  have v5: "limitsToBounds ex_env ex_state = (MInf, PInf, PInf)"
    using limitsToBounds_gap [of ex_state 0 0 ex_env] i p m by simp
  from b g bm bp bn i v1 v2 v3 v4 v5 show ?thesis by blast
qed

text \<open>
  The gap is not the formula applied to the two snapped bounds: with lower bound 5 above
  upper bound 3 (offset 0), the formula gives \<open>100 (3 - 5) / 3\<close>, while the dual value is
  lowered to 3 and the gap reported is 0.
\<close>

theorem limitsToBounds_gap_counterexample:
  "snap_zero (epsilon ex_env) (d_add (lower_bound ex_state_5_3) (Fin (offset (model ex_env))))
     = Fin 5
   \<and> snap_zero (epsilon ex_env) (d_add (upper_bound ex_state_5_3) (Fin (offset (model ex_env))))
       = Fin 3
   \<and> d_div (d_mul (Fin 100) (d_sub (Fin 3) (Fin 5))) (d_abs (Fin 3)) = Fin (- 200 / 3)
   \<and> limitsToBounds ex_env ex_state_5_3 = (Fin 3, Fin 3, Fin 0)
   \<and> Fin 0 \<noteq> Fin (- 200 / 3)"
  by code_simp

subsection \<open>The dimension guard\<close>

text \<open>
  C10. For a candidate whose length is not the number of columns of the model,
  \<^verbatim>\<open>solutionColFeasible\<close> returns false before it reads any vector, and so
  \<^verbatim>\<open>checkSolution\<close> returns false and \<^verbatim>\<open>trySolution\<close> returns false with the state
  (incumbent and bounds among it) unchanged; none of them reads past a vector.
\<close>

theorem dimension_guard:
  "length sol \<noteq> num_col (model env) \<Longrightarrow>
     solutionColFeasible env sol = Inr None
     \<and> checkSolution env sol = Inr False
     \<and> trySolution env x s sol = Inr (False, s)"
  by (simp add: solutionColFeasible_def checkSolution_def trySolution_def)

theorem dimension_guard_witness:
  "length [1, 2 :: real] \<noteq> num_col (model ex_env)
   \<and> solutionColFeasible ex_env [1, 2] = Inr None
   \<and> checkSolution ex_env [1, 2] = Inr False
   \<and> trySolution ex_env ex_addinc ex_state [1, 2] = Inr (False, ex_state)"
proof -
  have h: "length [1, 2 :: real] \<noteq> num_col (model ex_env)"
    by (simp add: ex_env_def ex_lp_def)
  from dimension_guard [OF h, of ex_addinc ex_state] h show ?thesis by simp
qed

end
